theory Spec2Isabelle
  imports Main
begin

section \<open>Paths, hashes and Python string helpers\<close>

text \<open>
  Paths and content hashes are Python strings. A \<open>pathlib.Path\<close> is modelled by the
  string \<open>str(path)\<close>, which is what the code uses as cache key and in every f-string.
\<close>

type_synonym path = string
type_synonym hash = string

definition startswith :: "string \<Rightarrow> string \<Rightarrow> bool" where
  \<comment> \<open>Python's \<open>s.startswith(p)\<close>\<close>
  "startswith s p = (take (length p) s = p)"

text \<open>
  The dictionaries the Logos preprocessor returns, one per source file. A file it left alone
  carries its \<open>path\<close>; a file it rewrote has \<open>logos == True\<close> together with \<open>new_path\<close> and
  \<open>old_path\<close>. The code reads them with \<open>file.get(...)\<close>.
\<close>

datatype srcfile = Plain (sf_path: path) | Logos (sf_new_path: path) (sf_old_path: path)

section \<open>Change detection: the hashing phase\<close>

text \<open>
  Everything \<open>__hash_files\<close> reads from its surroundings. The helpers \<open>resolve_path\<close>,
  \<open>get_hash\<close> and \<open>logos\<close> live in \<open>luz.common\<close>, outside the files at hand, and the two
  glob results come from the file system; all of them enter as fields.
  \<^item> \<open>object_paths file\<close> is \<open>resolve_path(f"{obj_dir}/*/{file.name}*-*.o")\<close>,
  \<^item> \<open>lipod_paths\<close> is \<open>resolve_path(f"{obj_dir}/*/{install_name}")\<close>
    (\<open>dylib_paths\<close> in the Tweak class),
  \<^item> \<open>hashlist\<close> is \<open>build_info.get("hashlist")\<close>, \<open>None\<close> when the key is absent.
\<close>

record hash_env =
  resolve_path :: "path \<Rightarrow> path"
  get_hash :: "path \<Rightarrow> hash"
  object_paths :: "path \<Rightarrow> path list"
  lipod_paths :: "path list"
  logos :: "path list \<Rightarrow> srcfile list"
  luz_path :: path
  hashlist :: "(path \<rightharpoonup> hash) option"
  archs :: "string list"
  only_compile_changed :: bool

text \<open>
  The body of the \<open>for file in files_to_compile\<close> loop, shared word for word by
  \<open>ModuleBuilder.__hash_files\<close> and \<open>Tweak.__hash_files\<close>: the three-way
  \<open>if fhash is None / elif fhash == new_hash / elif fhash != new_hash\<close>, then the
  unconditional \<open>new_hashes[str(file)] = new_hash\<close>. The old hashes are read from the
  cache as it was before the loop; the cache itself is only touched after the loop.
\<close>

fun hash_loop ::
  "hash_env \<Rightarrow> (path \<rightharpoonup> hash) \<Rightarrow> nat \<Rightarrow> path list \<Rightarrow>
     path list \<times> (path \<rightharpoonup> hash) \<Rightarrow> path list \<times> (path \<rightharpoonup> hash)" where
  "hash_loop env old arch_count [] (changed, new_hashes) = (changed, new_hashes)"
| "hash_loop env old arch_count (file # files) (changed, new_hashes) =
     (let fhash = old file;
          new_hash = get_hash env file;
          changed' =
            (if fhash = None then changed @ [file]
             else if fhash = Some new_hash then
               (if length (object_paths env file) < arch_count
                   \<or> length (lipod_paths env) < arch_count
                then changed @ [file] else changed)
             else if fhash \<noteq> Some new_hash then changed @ [file]
             else changed)
      in hash_loop env old arch_count files (changed', new_hashes(file \<mapsto> new_hash)))"

definition format_paths :: "hash_env \<Rightarrow> path list \<Rightarrow> path list" where
  \<comment> \<open>the "file path formatting" loop: relative names are put under the project path\<close>
  "format_paths env files =
     map (\<lambda>file. resolve_path env
            (if \<not> startswith file ''/'' then luz_path env @ ''/'' @ file else file)) files"

definition old_hashes :: "hash_env \<Rightarrow> (path \<rightharpoonup> hash)" where
  \<comment> \<open>\<open>if "hashlist" not in build_info: build_info["hashlist"] = {}\<close>\<close>
  "old_hashes env = (case hashlist env of None \<Rightarrow> Map.empty | Some h \<Rightarrow> h)"

definition ModuleBuilder_changed :: "hash_env \<Rightarrow> path list \<Rightarrow> path list" where
  \<comment> \<open>the list \<open>changed\<close> when the loop of \<open>ModuleBuilder.__hash_files\<close> is over\<close>
  "ModuleBuilder_changed env files =
     fst (hash_loop env (old_hashes env) (length (archs env)) (format_paths env files)
            ([], Map.empty))"

definition ModuleBuilder_new_hashes :: "hash_env \<Rightarrow> path list \<Rightarrow> (path \<rightharpoonup> hash)" where
  \<comment> \<open>the dictionary handed to \<open>luz.update_hashlist\<close> after the loop\<close>
  "ModuleBuilder_new_hashes env files =
     snd (hash_loop env (old_hashes env) (length (archs env)) (format_paths env files)
            ([], Map.empty))"

definition ModuleBuilder_hash_files :: "hash_env \<Rightarrow> path list \<Rightarrow> srcfile list" where
  \<comment> \<open>the return value: \<open>[]\<close> when the emptiness test finds nothing, else every file, through Logos\<close>
  "ModuleBuilder_hash_files env files =
     (let files_to_compile = format_paths env files;
          changed = ModuleBuilder_changed env files;
          files1 = (if only_compile_changed env then changed else files_to_compile)
      in if length files1 = 0 then []
         else (let files2 = files_to_compile in logos env files2))"

text \<open>
  \<open>Tweak.__hash_files\<close> differs in two places: \<open>resolve_path\<close> may answer with a list
  (a glob), whose members are all appended, and the old hashes are \<open>luzbuild.hashlist\<close>
  itself. Its test \<open>filter(...) != []\<close> compares a filter object with a list and is
  always true, so Logos runs on every non-empty result.
\<close>

datatype resolved = One path | Many "path list"

definition Tweak_format_paths :: "(path \<Rightarrow> resolved) \<Rightarrow> path \<Rightarrow> path list \<Rightarrow> path list" where
  "Tweak_format_paths resolve lpath files =
     concat (map (\<lambda>file.
        (case resolve (if \<not> startswith file ''/'' then lpath @ ''/'' @ file else file) of
           Many fs \<Rightarrow> fs
         | One f \<Rightarrow> [f])) files)"

definition Tweak_changed ::
  "hash_env \<Rightarrow> (path \<Rightarrow> resolved) \<Rightarrow> (path \<rightharpoonup> hash) \<Rightarrow> path list \<Rightarrow> path list" where
  "Tweak_changed env resolve hl files =
     fst (hash_loop env hl (length (archs env)) (Tweak_format_paths resolve (luz_path env) files)
            ([], Map.empty))"

definition Tweak_new_hashes ::
  "hash_env \<Rightarrow> (path \<Rightarrow> resolved) \<Rightarrow> (path \<rightharpoonup> hash) \<Rightarrow> path list \<Rightarrow> (path \<rightharpoonup> hash)" where
  "Tweak_new_hashes env resolve hl files =
     snd (hash_loop env hl (length (archs env)) (Tweak_format_paths resolve (luz_path env) files)
            ([], Map.empty))"

definition Tweak_hash_files ::
  "hash_env \<Rightarrow> (path \<Rightarrow> resolved) \<Rightarrow> (path \<rightharpoonup> hash) \<Rightarrow> path list \<Rightarrow> srcfile list" where
  "Tweak_hash_files env resolve hl files =
     (let files_to_compile = Tweak_format_paths resolve (luz_path env) files;
          changed = Tweak_changed env resolve hl files;
          files1 = (if only_compile_changed env then changed else files_to_compile)
      in if length files1 = 0 then []
         else (let files2 = files_to_compile in logos env files2))"

text \<open>
  The claim's reading of the verdict, in the spec's words: no prior hash, or a prior hash
  that differs, or an unchanged hash with fewer objects than architectures.
\<close>

definition claimed_verdict :: "hash option \<Rightarrow> hash \<Rightarrow> nat \<Rightarrow> nat \<Rightarrow> bool" where
  "claimed_verdict fhash new_hash n_objects arch_count =
     (fhash = None \<or> fhash \<noteq> Some new_hash \<or> (fhash = Some new_hash \<and> n_objects < arch_count))"

subsection \<open>The legacy Tool class keeps its own hash file\<close>

text \<open>
  \<open>Tool.__hash_files\<close>: \<open>hash_file\<close> is the parsed content of the hash file, \<open>None\<close> when
  the file does not exist. The result is the returned file list and the dictionary written
  back. \<open>new_hashes.update({k: v for k, v in old_hashlist.items() if k in new_hashes})\<close>
  is \<open>++\<close> with the old entries restricted to the keys just hashed.
\<close>

definition Tool_format_paths :: "(path \<Rightarrow> resolved) \<Rightarrow> path list \<Rightarrow> path list" where
  "Tool_format_paths resolve files =
     concat (map (\<lambda>file. (case resolve file of Many fs \<Rightarrow> fs | One f \<Rightarrow> [f])) files)"

fun Tool_new_hashes :: "(path \<Rightarrow> hash) \<Rightarrow> path list \<Rightarrow> (path \<rightharpoonup> hash) \<Rightarrow> (path \<rightharpoonup> hash)" where
  "Tool_new_hashes gh [] new_hashes = new_hashes"
| "Tool_new_hashes gh (file # files) new_hashes =
     Tool_new_hashes gh files (new_hashes(file \<mapsto> gh file))"

definition Tool_hash_files ::
  "(path \<Rightarrow> resolved) \<Rightarrow> (path \<Rightarrow> hash) \<Rightarrow> (path \<rightharpoonup> hash) option \<Rightarrow> path list \<Rightarrow>
     path list \<times> (path \<rightharpoonup> hash)" where
  "Tool_hash_files resolve gh hash_file files =
     (let files_to_compile = Tool_format_paths resolve files;
          old_hashlist = (case hash_file of None \<Rightarrow> Map.empty | Some h \<Rightarrow> h);
          new_hashes = Tool_new_hashes gh files_to_compile Map.empty;
          written = new_hashes ++ (old_hashlist |` dom new_hashes)
      in (files_to_compile, written))"

subsection \<open>Concrete inputs for the hashing phase\<close>

definition plain_logos :: "path list \<Rightarrow> srcfile list" where
  \<comment> \<open>a Logos run on files none of which needs preprocessing\<close>
  "plain_logos fs =
     map Plain fs"

definition env_linked_missing :: hash_env where
  \<comment> \<open>one file, hash unchanged, both objects on disk, no per-architecture linked binary\<close>
  "env_linked_missing =
     \<lparr>resolve_path = (\<lambda>p. p), get_hash = (\<lambda>_. ''h1''),
      object_paths = (\<lambda>_. [''/b/obj/M/arm64/a.m-1.o'', ''/b/obj/M/arm64e/a.m-1.o'']),
      lipod_paths = [], logos = plain_logos, luz_path = ''/p'',
      hashlist = Some [''/p/a.m'' \<mapsto> ''h1''], archs = [''arm64'', ''arm64e''],
      only_compile_changed = True\<rparr>"

definition env_one_edit :: hash_env where
  \<comment> \<open>two files built before for two architectures; only \<open>b.m\<close> was edited since\<close>
  "env_one_edit =
     \<lparr>resolve_path = (\<lambda>p. p),
      get_hash = (\<lambda>f. if f = ''/p/b.m'' then ''hb2'' else ''ha''),
      object_paths = (\<lambda>f. if f = ''/p/b.m''
         then [''/b/obj/M/arm64/b.m-1.o'', ''/b/obj/M/arm64e/b.m-1.o'']
         else [''/b/obj/M/arm64/a.m-1.o'', ''/b/obj/M/arm64e/a.m-1.o'']),
      lipod_paths = [''/b/obj/M/arm64/M.dylib'', ''/b/obj/M/arm64e/M.dylib''],
      logos = plain_logos, luz_path = ''/p'',
      hashlist = Some [''/p/a.m'' \<mapsto> ''ha'', ''/p/b.m'' \<mapsto> ''hb1''],
      archs = [''arm64'', ''arm64e''],
      only_compile_changed = True\<rparr>"

section \<open>Linking\<close>

text \<open>
  The external tools a linker run may start, in the model one constructor each. A tool
  that fails makes \<open>exec_output\<close>, \<open>exec_no_output\<close>, \<open>check_output\<close> or the compiler
  wrapper raise; \<open>tool_fails\<close> says which ones do. A linker run yields the tools it started,
  in order, and its return value (\<open>None\<close> or the error string).
\<close>

datatype tool = Link string | Lipo | Strip | Add_rpath | Ldid

record link_env =
  l_files :: "srcfile list"
  out_exists :: bool
  l_archs :: "string list"
  tool_fails :: "tool \<Rightarrow> bool"
  l_name :: string
  l_install_name :: string
  l_out_name :: path
  l_executable :: bool
  l_release :: bool

fun link_archs :: "link_env \<Rightarrow> string list \<Rightarrow> tool list \<times> string option" where
  \<comment> \<open>\<open>for arch in archs: try: <link> except: return ...\<close>\<close>
  \<open>link_archs env [] = ([], None)\<close>
| \<open>link_archs env (arch # rest) =
     (if tool_fails env (Link arch)
      then ([Link arch],
            Some (''An error occured when trying to link files for module "'' @ l_name env
                  @ ''" for architecture "'' @ arch @ ''".''))
      else (let (ts, r) = link_archs env rest in (Link arch # ts, r)))\<close>

definition ModuleBuilder_linker :: "link_env \<Rightarrow> tool list \<times> string option" where
  \<open>ModuleBuilder_linker env =
     (if length (l_files env) = 0 \<and> out_exists env then ([], None)
      else (case link_archs env (l_archs env) of
              (ts, Some e) \<Rightarrow> (ts, Some e)
            | (ts, None) \<Rightarrow>
                if tool_fails env Lipo
                then (ts @ [Lipo],
                      Some (''An error occured when trying to lipo files for module "''
                            @ l_name env @ ''".''))
                else if l_executable env \<and> l_release env \<and> tool_fails env Strip
                then (ts @ [Lipo, Strip],
                      Some (''An error occured when trying to strip "'' @ l_out_name env
                            @ ''" for module "'' @ l_name env @ ''".''))
                else (let ts' = ts @ [Lipo]
                                 @ (if l_executable env \<and> l_release env then [Strip] else [])
                      in if tool_fails env Ldid
                         then (ts' @ [Ldid],
                               Some (''An error occured when trying codesign "''
                                     @ l_out_name env @ ''" for module "'' @ l_name env @ ''".''))
                         else (ts' @ [Ldid], None))))\<close>

text \<open>
  \<open>Tweak.__linker\<close>: the same early return, then link per architecture, lipo, the rpath fix with
  \<open>install_name_tool\<close>, and \<open>ldid\<close>. Here \<open>l_out_name\<close> is
  \<open>f"{dir}/dylib/{name}/{name}.dylib"\<close>.
\<close>

definition Tweak_linker :: "link_env \<Rightarrow> tool list \<times> string option" where
  \<open>Tweak_linker env =
     (if length (l_files env) = 0 \<and> out_exists env then ([], None)
      else (case link_archs env (l_archs env) of
              (ts, Some e) \<Rightarrow> (ts, Some e)
            | (ts, None) \<Rightarrow>
                if tool_fails env Lipo
                then (ts @ [Lipo],
                      Some (''An error occured when trying to lipo files for module "''
                            @ l_name env @ ''".''))
                else if tool_fails env Add_rpath
                then (ts @ [Lipo, Add_rpath],
                      Some (''An error occured when trying to add rpath to "'' @ l_out_name env
                            @ ''" for module "'' @ l_name env @ ''".''))
                else if tool_fails env Ldid
                then (ts @ [Lipo, Add_rpath, Ldid],
                      Some (''An error occured when trying to codesign "'' @ l_out_name env
                            @ ''". ('' @ l_name env @ '')''))
                else (ts @ [Lipo, Add_rpath, Ldid], None)))\<close>

definition link_env_up_to_date :: link_env where
  \<comment> \<open>nothing to compile; \<open>out_exists\<close> is set per case\<close>
  "link_env_up_to_date =
     \<lparr>l_files = [], out_exists = True, l_archs = [''arm64'', ''arm64e''],
      tool_fails = (\<lambda>_. False), l_name = ''M'', l_install_name = ''M.dylib'',
      l_out_name = ''/b/dylib/M/M.dylib'', l_executable = False, l_release = False\<rparr>"

section \<open>Staging\<close>

text \<open>
  The part of the file system staging works on: a directory is the list of the names in
  it, a path that is no directory is \<open>None\<close>. \<open>copytree\<close> is
  \<open>shutil.copytree(src, dst, dirs_exist_ok=True)\<close>: it raises (\<open>None\<close>) when the source
  is missing, and otherwise creates the destination if need be and merges the source's
  names into it. Nested directories are not followed.
\<close>

type_synonym fs = "path \<rightharpoonup> string list"

definition makedirs :: "path \<Rightarrow> fs \<Rightarrow> fs" where
  \<comment> \<open>\<open>os.makedirs(d, exist_ok=True)\<close>\<close>
  "makedirs d fs = (case fs d of None \<Rightarrow> fs(d \<mapsto> []) | Some _ \<Rightarrow> fs)"

definition copytree :: "path \<Rightarrow> path \<Rightarrow> fs \<Rightarrow> fs option" where
  "copytree src dst fs =
     (case fs src of
        None \<Rightarrow> None
      | Some names \<Rightarrow>
          Some (fs(dst \<mapsto> (case fs dst of
                              None \<Rightarrow> names
                            | Some old \<Rightarrow> old @ filter (\<lambda>n. n \<notin> set old) names))))"

text \<open>What a staging function did: returned \<open>None\<close>, returned an error string, or raised.\<close>

datatype stage_result = Stage_ok | Stage_error string | Stage_raised

definition resources_missing :: "string \<Rightarrow> string" where
  \<open>resources_missing name = ''Resources/ folder for "'' @ name @ ''" does not exist''\<close>

text \<open>
  \<open>Preferences.__stage\<close> of \<open>compiler/modules/prefs.py\<close>. \<open>rp\<close> is \<open>resolve_path\<close>, \<open>dir\<close> the
  build directory, \<open>lpath\<close> the project path \<open>luzbuild.path\<close>.
\<close>

definition Preferences_dirtocopy :: "(path \<Rightarrow> path) \<Rightarrow> path \<Rightarrow> string \<Rightarrow> bool \<Rightarrow> path" where
  "Preferences_dirtocopy rp dir name rootless =
     (if \<not> rootless then rp (dir @ ''/_/Library/PreferenceBundles/'' @ name @ ''.bundle'')
      else rp (dir @ ''/_/var/jb/Library/PreferenceBundles/'' @ name @ ''.bundle''))"

definition Preferences_dirtomake :: "(path \<Rightarrow> path) \<Rightarrow> path \<Rightarrow> bool \<Rightarrow> path" where
  "Preferences_dirtomake rp dir rootless =
     (if \<not> rootless then rp (dir @ ''/_/Library/PreferenceBundles/'')
      else rp (dir @ ''/_/var/jb/Library/PreferenceBundles/''))"

definition Preferences_stage ::
  "(path \<Rightarrow> path) \<Rightarrow> path \<Rightarrow> string \<Rightarrow> bool \<Rightarrow> path \<Rightarrow> fs \<Rightarrow> fs \<times> stage_result" where
  "Preferences_stage rp dir name rootless lpath fs =
     (let dirtomake = Preferences_dirtomake rp dir rootless;
          dirtocopy = Preferences_dirtocopy rp dir name rootless;
          fs1 = (if fs dirtomake = None then makedirs dirtomake fs else fs)
      in case copytree (dir @ ''/dylib/'' @ name) dirtocopy fs1 of
           None \<Rightarrow> (fs1, Stage_raised)
         | Some fs2 \<Rightarrow>
             (let resources_path = rp (lpath @ ''/Resources'')
              in if fs2 resources_path = None then (fs2, Stage_error (resources_missing name))
                 else (case copytree resources_path dirtocopy fs2 of
                         None \<Rightarrow> (fs2, Stage_raised)
                       | Some fs3 \<Rightarrow> (fs3, Stage_ok))))"

text \<open>
  \<open>Preferences.__stage\<close> of \<open>build/components/prefs.py\<close>: the same steps between the two
  optional hooks of the module, which are callables and enter as file system
  transformers. \<open>dylib_dir\<close> is \<open>resolve_path(f"{build_dir}/dylib/{name}")\<close>.
\<close>

definition run_hook :: "(fs \<Rightarrow> fs) option \<Rightarrow> fs \<Rightarrow> fs" where
  \<comment> \<open>\<open>if self.module.before_stage: self.module.before_stage()\<close>\<close>
  "run_hook hook fs = (case hook of None \<Rightarrow> fs | Some h \<Rightarrow> h fs)"

definition PreferencesBuilder_stage ::
  "(path \<Rightarrow> path) \<Rightarrow> path \<Rightarrow> string \<Rightarrow> bool \<Rightarrow> path \<Rightarrow> (fs \<Rightarrow> fs) option \<Rightarrow> (fs \<Rightarrow> fs) option
     \<Rightarrow> fs \<Rightarrow> fs \<times> stage_result" where
  "PreferencesBuilder_stage rp build_dir name rootless lpath before_stage after_stage fs =
     (let fs0 = run_hook before_stage fs;
          dirtomake = Preferences_dirtomake rp build_dir rootless;
          dirtocopy = Preferences_dirtocopy rp build_dir name rootless;
          fs1 = (if fs0 dirtomake = None then makedirs dirtomake fs0 else fs0)
      in case copytree (rp (build_dir @ ''/dylib/'' @ name)) dirtocopy fs1 of
           None \<Rightarrow> (fs1, Stage_raised)
         | Some fs2 \<Rightarrow>
             (let resources_path = rp (lpath @ ''/Resources'')
              in if fs2 resources_path = None then (fs2, Stage_error (resources_missing name))
                 else (case copytree resources_path dirtocopy fs2 of
                         None \<Rightarrow> (fs2, Stage_raised)
                       | Some fs3 \<Rightarrow> (run_hook after_stage fs3, Stage_ok))))"

definition fs_no_resources :: fs where
  \<comment> \<open>a linked preference bundle library, and no \<open>Resources\<close> directory in the project\<close>
  "fs_no_resources = [''/b/dylib/P'' \<mapsto> [''P.dylib'']]"

subsection \<open>Install paths of the Tool and Tweak classes\<close>

definition path_parent :: "path \<Rightarrow> path" where
  \<comment> \<open>\<open>Path.parent\<close> of a normalised path: \<open>/usr/local/bin\<close> gives \<open>/usr/local\<close>,
      \<open>/usr\<close> gives \<open>/\<close>, a bare name gives \<open>.\<close>\<close>
  "path_parent p =
     (let d = rev (dropWhile (\<lambda>c. c \<noteq> CHR ''/'') (rev p))
      in if d = [] then ''.'' else if butlast d = [] then ''/'' else butlast d)"

definition custom_dir_warning :: "string \<Rightarrow> string" where
  \<open>custom_dir_warning name =
     ''Custom install directory for module "'' @ name
       @ ''" was specified, and rootless is enabled. Prefixing path with /var/jb.''\<close>

record stage_out =
  warnings :: "string list"
  dirtomake :: path
  dirtocopy :: path
  staged :: fs
  result :: stage_result

text \<open>
  \<open>Tool.__stage\<close> of \<open>compiler/modules/tool.py\<close>. \<open>install_dir\<close> is the module's
  \<open>installDir\<close>, \<open>None\<close> when the configuration gives none; \<open>bin_dir\<close> is
  \<open>resolve_path(f"{dir}/bin")\<close>.
\<close>

definition Tool_stage ::
  "(path \<Rightarrow> path) \<Rightarrow> path \<Rightarrow> string \<Rightarrow> bool \<Rightarrow> path option \<Rightarrow> fs \<Rightarrow> stage_out" where
  "Tool_stage rp dir name rootless install_dir fs =
     (let (ws, tomake, tocopy) =
            (case install_dir of
               None \<Rightarrow>
                 ([],
                  (if \<not> rootless then rp (dir @ ''/_/usr'') else rp (dir @ ''/_/var/jb/usr'')),
                  (if \<not> rootless then rp (dir @ ''/_/usr/bin'')
                   else rp (dir @ ''/_/var/jb/usr/bin'')))
             | Some d \<Rightarrow>
                 (let idir = rp d
                  in ((if rootless then [custom_dir_warning name] else []),
                      (if \<not> rootless then rp (dir @ ''/_/'' @ path_parent idir)
                       else rp (dir @ ''/_/var/jb/'' @ path_parent idir)),
                      (if \<not> rootless then rp (dir @ ''/_/'' @ idir)
                       else rp (dir @ ''/_/var/jb/'' @ idir)))));
          fs1 = (if fs tomake = None then makedirs tomake fs else fs)
      in case copytree (rp (dir @ ''/bin'')) tocopy fs1 of
           None \<Rightarrow> \<lparr>warnings = ws, dirtomake = tomake, dirtocopy = tocopy, staged = fs1,
                     result = Stage_raised\<rparr>
         | Some fs2 \<Rightarrow> \<lparr>warnings = ws, dirtomake = tomake, dirtocopy = tocopy, staged = fs2,
                        result = Stage_ok\<rparr>)"

text \<open>
  \<open>Tweak.__stage\<close> of \<open>compiler/modules/tweak.py\<close>: other defaults, and after the copy the
  filter descriptor \<open>{name}.plist\<close> is written into the destination. The descriptor's text
  is not part of the model, only the file's name.
\<close>

definition write_file :: "path \<Rightarrow> string \<Rightarrow> fs \<Rightarrow> fs option" where
  \<comment> \<open>\<open>open(f"{d}/{n}", "w")\<close>: raises when the directory is missing\<close>
  "write_file d n fs =
     (case fs d of None \<Rightarrow> None
      | Some names \<Rightarrow> Some (fs(d \<mapsto> (if n \<in> set names then names else names @ [n]))))"

definition Tweak_stage ::
  "(path \<Rightarrow> path) \<Rightarrow> path \<Rightarrow> string \<Rightarrow> bool \<Rightarrow> path option \<Rightarrow> fs \<Rightarrow> stage_out" where
  "Tweak_stage rp dir name rootless install_dir fs =
     (let (ws, tomake, tocopy) =
            (case install_dir of
               None \<Rightarrow>
                 ([],
                  (if \<not> rootless then rp (dir @ ''/_/Library/MobileSubstrate/'')
                   else rp (dir @ ''/_/var/jb/usr/lib/'')),
                  (if \<not> rootless then rp (dir @ ''/_/Library/MobileSubstrate/DynamicLibraries/'')
                   else rp (dir @ ''/_/var/jb/usr/lib/TweakInject'')))
             | Some d \<Rightarrow>
                 (let idir = rp d
                  in ((if rootless then [custom_dir_warning name] else []),
                      (if \<not> rootless then rp (dir @ ''/_/'' @ path_parent idir)
                       else rp (dir @ ''/_/var/jb/'' @ path_parent idir)),
                      (if \<not> rootless then rp (dir @ ''/_/'' @ idir)
                       else rp (dir @ ''/_/var/jb/'' @ idir)))));
          fs1 = (if fs tomake = None then makedirs tomake fs else fs)
      in case copytree (dir @ ''/dylib/'' @ name) tocopy fs1 of
           None \<Rightarrow> \<lparr>warnings = ws, dirtomake = tomake, dirtocopy = tocopy, staged = fs1,
                     result = Stage_raised\<rparr>
         | Some fs2 \<Rightarrow>
             (case write_file tocopy (name @ ''.plist'') fs2 of
                None \<Rightarrow> \<lparr>warnings = ws, dirtomake = tomake, dirtocopy = tocopy, staged = fs2,
                           result = Stage_raised\<rparr>
              | Some fs3 \<Rightarrow> \<lparr>warnings = ws, dirtomake = tomake, dirtocopy = tocopy,
                             staged = fs3, result = Stage_ok\<rparr>))"

section \<open>Constructing a module's pipeline: private frameworks\<close>

text \<open>
  How a constructor ends: \<open>error(msg); exit(1)\<close>, or a raised exception with its message.
\<close>

datatype init_error = Exit string | Raise string

text \<open>
  \<open>Module.__init__\<close> of \<open>compiler/modules/module.py\<close>, the lines that build
  \<open>private_frameworks\<close> from the type's defaults and the module's own list, and the check
  that follows. The constructor looks at the SDK path only; it never tests whether the
  SDK holds a \<open>PrivateFrameworks\<close> directory.
\<close>

record module_fields =
  m_private_frameworks :: string
  m_framework_dirs :: string

definition framework_flags :: "string list \<Rightarrow> string" where
  \<comment> \<open>\<open>for framework in ...: self.private_frameworks += f' -framework {framework}'\<close>\<close>
  "framework_flags fws = concat (map (\<lambda>framework. '' -framework '' @ framework) fws)"

definition Module_init :: "path \<Rightarrow> string list \<Rightarrow> string list \<Rightarrow> init_error + module_fields" where
  "Module_init sdk private_frameworksD private_frameworks =
     (let pf = (if private_frameworksD \<noteq> [] then framework_flags private_frameworksD else [])
               @ (if private_frameworks \<noteq> [] then framework_flags private_frameworks else [])
      in if pf \<noteq> [] \<and> startswith sdk ''/Applications''
         then Inl (Exit
           ''No SDK specified. Xcode will be used, and private frameworks will not be found.'')
         else Inr \<lparr>m_private_frameworks = pf,
                   m_framework_dirs = ''-F'' @ sdk @ ''/System/Library/PrivateFrameworks''\<rparr>)"

text \<open>
  \<open>ModuleBuilder.__init__\<close> of \<open>build/module.py\<close>: the framework search directories it
  appends, the private frameworks check, and, when that passes, the hashing phase.
  \<open>exists\<close> is \<open>Path.exists\<close>; \<open>cloned_libs\<close> and \<open>storage\<close> are the library checkout and
  the storage directory.
\<close>

record builder =
  b_framework_dirs :: "string list"
  b_files :: "srcfile list"

definition ModuleBuilder_init ::
  "hash_env \<Rightarrow> path \<Rightarrow> path \<Rightarrow> path \<Rightarrow> (path \<Rightarrow> bool) \<Rightarrow> string list \<Rightarrow> string list \<Rightarrow> path list
     \<Rightarrow> init_error + builder" where
  "ModuleBuilder_init env sdk cloned_libs storage exists framework_dirs private_frameworks files =
     (let fd = framework_dirs @ [cloned_libs] @ [sdk @ ''/System/Library/Frameworks'']
                 @ [storage @ ''/lib'']
      in if private_frameworks \<noteq> [] then
           (if exists (resolve_path env (sdk @ ''/System/Library/PrivateFrameworks''))
            then Inr \<lparr>b_framework_dirs = fd @ [sdk @ ''/System/Library/PrivateFrameworks''],
                      b_files = ModuleBuilder_hash_files env files\<rparr>
            else Inl (Raise (''Private frameworks are not available on the SDK being used. (''
                             @ sdk @ '')'')))
         else Inr \<lparr>b_framework_dirs = fd, b_files = ModuleBuilder_hash_files env files\<rparr>)"

text \<open>The claim's reading of "the SDK cannot supply private frameworks".\<close>

definition claimed_cannot_supply :: "path \<Rightarrow> bool \<Rightarrow> bool" where
  "claimed_cannot_supply sdk has_private_dir =
     (startswith sdk ''/Applications'' \<or> \<not> has_private_dir)"

section \<open>The project: \<open>LuzBuild.build\<close>\<close>

text \<open>
  A project has a name (its path), its modules in declaration order, \<open>None\<close> when the
  LuzBuild file has none, and its sub-projects. A module is its name and what its
  \<open>compile()\<close> returns: \<open>None\<close> or an error string. \<open>build\<close> yields what happened, in order,
  and how the run ended: it returned, it ended in \<open>exit(1)\<close> on the calling thread, or it is
  blocked. The builds of the sub-projects run on workers of the thread pool. A worker whose
  build calls \<open>exit(1)\<close> dies of the \<open>SystemExit\<close> without delivering a result, and one whose
  build is blocked delivers none either; the parent's \<open>pool.map\<close> then waits for ever.
\<close>

datatype event = Build string | Compile string string | Report string

datatype ending = Returned | Exited | Blocked

datatype project =
  Project (p_name: string) (p_modules: "(string \<times> string option) list option")
    (p_submodules: "project list")

fun first_error :: "string option list \<Rightarrow> string option" where
  \<comment> \<open>\<open>for result in compile_results: if result is not None: error(result); exit(1)\<close>\<close>
  "first_error [] = None"
| "first_error (None # rs) = first_error rs"
| "first_error (Some e # rs) = Some e"

fun build :: "project \<Rightarrow> event list \<times> ending" where
  "build (Project n mods subs) =
     (let t0 = Build n # (case mods of None \<Rightarrow> [] | Some ms \<Rightarrow> map (\<lambda>m. Compile n (fst m)) ms);
          r0 = (case mods of None \<Rightarrow> None | Some ms \<Rightarrow> first_error (map snd ms))
      in case r0 of
           Some e \<Rightarrow> (t0 @ [Report e], Exited)
         | None \<Rightarrow>
             if subs \<noteq> [] then
               (let rs = map build subs
                in (t0 @ concat (map fst rs),
                    if list_all (\<lambda>r. r = Returned) (map snd rs) then Returned else Blocked))
             else (t0, Returned))"

definition project_two_failures :: project where
  \<comment> \<open>two failing modules and one sub-project\<close>
  "project_two_failures =
     Project ''app'' (Some [(''A'', Some ''errA''), (''B'', Some ''errB'')])
       [Project ''sub'' (Some [(''S'', None)]) []]"

definition project_all_fine :: project where
  "project_all_fine =
     Project ''app'' (Some [(''A'', None), (''B'', None)])
       [Project ''sub'' (Some [(''S'', None)]) []]"

section \<open>Compiling: the object directory and the compile tasks\<close>

text \<open>
  The object directory of a module, \<open>{build_dir}/obj/{name}\<close>: every entry lies in the
  directory of one architecture, has a name, is a file or a directory, and was written by
  some run of the build. The run that wrote an entry is what tells a stale fragment from a
  fresh object; the current run is \<open>run_id\<close>.
\<close>

record entry =
  e_arch :: string
  e_name :: string
  e_dir :: bool
  e_run :: nat

type_synonym objdir = "entry list"

definition basename :: "path \<Rightarrow> string" where
  \<comment> \<open>\<open>Path.name\<close>\<close>
  "basename p = rev (takeWhile (\<lambda>c. c \<noteq> CHR ''/'') (rev p))"

definition endswith :: "string \<Rightarrow> string \<Rightarrow> bool" where
  "endswith s p = startswith (rev s) (rev p)"

definition rmtree :: "string \<Rightarrow> string \<Rightarrow> objdir \<Rightarrow> objdir" where
  \<comment> \<open>\<open>shutil.rmtree(f"{obj_dir}/{arch}/{lit}", ignore_errors=True)\<close>: the path is taken
      as it is written, and only a directory of exactly that name is removed\<close>
  "rmtree arch lit od = filter (\<lambda>e. \<not> (e_arch e = arch \<and> e_name e = lit \<and> e_dir e)) od"

definition rmtree_arch :: "string \<Rightarrow> objdir \<Rightarrow> objdir" where
  \<comment> \<open>\<open>rmtree(f"{dir}/obj/{name}/{arch}", ignore_errors=True)\<close>: the whole directory goes\<close>
  "rmtree_arch arch od = filter (\<lambda>e. e_arch e \<noteq> arch) od"

definition write_entry :: "string \<Rightarrow> string \<Rightarrow> nat \<Rightarrow> objdir \<Rightarrow> objdir" where
  \<comment> \<open>a tool writes a file, replacing one of the same name\<close>
  "write_entry arch n r od =
     filter (\<lambda>e. \<not> (e_arch e = arch \<and> e_name e = n)) od
       @ [\<lparr>e_arch = arch, e_name = n, e_dir = False, e_run = r\<rparr>]"

text \<open>
  The external compiler, per file and architecture: it succeeds, fails without output, or
  fails leaving its first output half written.
\<close>

datatype cc_outcome = Compiled | Failed | Failed_partial

text \<open>
  \<open>sh\<close> is the shell: what \<open>check_output(cmd, shell=True)\<close> does to the object directory
  for a command line, \<open>None\<close> when the command exits with an error and \<open>check_output\<close>
  raises. \<open>obj_dir\<close> is \<open>resolve_path(f"{build_dir}/obj/{name}")\<close>.
\<close>

record cc_env =
  run_id :: nat
  now :: string
  compiler :: "path \<Rightarrow> string \<Rightarrow> cc_outcome"
  sh :: "string \<Rightarrow> objdir \<Rightarrow> objdir option"
  obj_dir :: path
  c_archs :: "string list"
  c_name :: string

text \<open>What the compiler found in the object directory when it was started.\<close>

record invocation =
  inv_file :: path
  inv_arch :: string
  inv_seen :: objdir

definition run_compiler ::
  "cc_env \<Rightarrow> path \<Rightarrow> string \<Rightarrow> string list \<Rightarrow> objdir \<Rightarrow> objdir \<times> bool" where
  \<comment> \<open>the outputs written, and whether the call raised\<close>
  "run_compiler env file arch outs od =
     (case compiler env file arch of
        Compiled \<Rightarrow> (fold (\<lambda>n. write_entry arch n (run_id env)) outs od, False)
      | Failed_partial \<Rightarrow> (fold (\<lambda>n. write_entry arch n (run_id env)) (take 1 outs) od, True)
      | Failed \<Rightarrow> (od, True))"

definition compile_path :: "srcfile \<Rightarrow> path" where
  \<comment> \<open>\<open>__handle_logos\<close>: \<open>new_path\<close> of a preprocessed file, \<open>path\<close> of any other\<close>
  "compile_path f = (case f of Logos new_path old_path \<Rightarrow> new_path | Plain p \<Rightarrow> p)"

subsection \<open>\<open>ModuleBuilder\<close>: one task per file and architecture\<close>

definition compile_c_arch ::
  "cc_env \<Rightarrow> path \<Rightarrow> string \<Rightarrow> objdir \<Rightarrow> invocation \<times> objdir \<times> string option" where
  \<open>compile_c_arch env file arch od =
     (let out_name = basename file @ ''-'' @ now env @ ''.o'';
          od1 = rmtree arch (basename file @ ''-*'') od;
          (od2, raised) = run_compiler env file arch [out_name] od1
      in (\<lparr>inv_file = file, inv_arch = arch, inv_seen = od1\<rparr>, od2,
          if raised
          then Some (''An error occured when attempting to compile "'' @ file
                     @ ''" for module "'' @ c_name env @ ''".'')
          else None))\<close>

definition compile_swift_arch ::
  "cc_env \<Rightarrow> path \<Rightarrow> string \<Rightarrow> objdir \<Rightarrow> invocation \<times> objdir \<times> string option" where
  \<open>compile_swift_arch env file arch od =
     (let out_name = basename file @ ''-'' @ now env;
          od1 = rmtree arch (basename file @ ''-*'') od;
          (od2, raised) =
            run_compiler env file arch [out_name @ ''.o'', out_name @ ''.swiftmodule''] od1
      in (\<lparr>inv_file = file, inv_arch = arch, inv_seen = od1\<rparr>, od2,
          if raised
          then Some (''An error occured when trying to compile "'' @ file
                     @ ''" for module "'' @ c_name env @ ''".'')
          else None))\<close>

fun compile_archs ::
  "cc_env \<Rightarrow> path \<Rightarrow> string list \<Rightarrow> objdir \<Rightarrow> invocation list \<times> objdir \<times> string option list" where
  \<comment> \<open>\<open>futures = [self.pool.submit(..., file, x) for x in self.meta.archs]\<close>, every one run\<close>
  "compile_archs env file [] od = ([], od, [])"
| "compile_archs env file (arch # rest) od =
     (let (inv, od1, r) =
            (if endswith file ''.swift'' then compile_swift_arch env file arch od
             else compile_c_arch env file arch od);
          (invs, od2, rs) = compile_archs env file rest od1
      in (inv # invs, od2, r # rs))"

text \<open>What a task handed to the pool comes back with.\<close>

datatype py_result = Ret_none | Ret_error string | Raised

definition compile_failed :: "string \<Rightarrow> string" where
  \<open>compile_failed name =
     ''An error occured when attempting to compile for module "'' @ name @ ''".''\<close>

definition compile_file ::
  "cc_env \<Rightarrow> path list \<Rightarrow> srcfile \<Rightarrow> objdir \<Rightarrow> invocation list \<times> objdir \<times> py_result" where
  \<comment> \<open>\<open>__compile_file\<close>: the lookup \<open>list(filter(...))[0]\<close> in \<open>files_paths\<close>, then the
      per-architecture tasks\<close>
  "compile_file env files_paths f od =
     (case find (\<lambda>x. x = compile_path f) files_paths of
        None \<Rightarrow> ([], od, Raised)
      | Some file \<Rightarrow>
          (let (invs, od1, rs) = compile_archs env file (c_archs env) od
           in (invs, od1,
               if first_error rs \<noteq> None then Ret_error (compile_failed (c_name env))
               else Ret_none)))"

fun compile_files ::
  "cc_env \<Rightarrow> path list \<Rightarrow> srcfile list \<Rightarrow> objdir \<Rightarrow> invocation list \<times> objdir \<times> py_result list"
  where
  \<comment> \<open>\<open>futures = [self.luz.pool.submit(self.__compile_file, file) for file in self.files]\<close>\<close>
  "compile_files env files_paths [] od = ([], od, [])"
| "compile_files env files_paths (f # fs) od =
     (let (invs1, od1, r) = compile_file env files_paths f od;
          (invs2, od2, rs) = compile_files env files_paths fs od1
      in (invs1 @ invs2, od2, r # rs))"

definition clean_command :: "cc_env \<Rightarrow> string \<Rightarrow> path \<Rightarrow> string" where
  \<comment> \<open>\<open>f"rm -rf {self.obj_dir}/{arch}/{x.name}-*"\<close>, handed to the shell as it is\<close>
  "clean_command env arch x =
     ''rm -rf '' @ obj_dir env @ ''/'' @ arch @ ''/'' @ basename x @ ''-*''"

fun clean_files :: "cc_env \<Rightarrow> string \<Rightarrow> path list \<Rightarrow> objdir \<Rightarrow> objdir option" where
  \<comment> \<open>\<open>for x in self.files_paths: check_output(f"rm -rf ...", shell=True)\<close>\<close>
  "clean_files env arch [] od = Some od"
| "clean_files env arch (x # xs) od =
     (case sh env (clean_command env arch x) od of
        None \<Rightarrow> None
      | Some od1 \<Rightarrow> clean_files env arch xs od1)"

fun clean_arch_dirs :: "cc_env \<Rightarrow> string list \<Rightarrow> path list \<Rightarrow> objdir \<Rightarrow> objdir option" where
  \<comment> \<open>the "clean arch dirs" loop of \<open>compile()\<close>\<close>
  "clean_arch_dirs env [] files_paths od = Some od"
| "clean_arch_dirs env (arch # rest) files_paths od =
     (case clean_files env arch files_paths od of
        None \<Rightarrow> None
      | Some od1 \<Rightarrow> clean_arch_dirs env rest files_paths od1)"

definition ModuleBuilder_compile ::
  "cc_env \<Rightarrow> srcfile list \<Rightarrow> objdir \<Rightarrow> (invocation list \<times> objdir \<times> py_result list) option"
  where
  \<comment> \<open>\<open>compile()\<close> up to the point where all compile futures are done; \<open>None\<close> when the
      cleaning loop raises, before any task is submitted\<close>
  "ModuleBuilder_compile env files od =
     (let files_paths = map compile_path files
      in case clean_arch_dirs env (c_archs env) files_paths od of
           None \<Rightarrow> None
         | Some od0 \<Rightarrow> Some (compile_files env files_paths files od0))"

subsection \<open>\<open>Tweak\<close>: one task per file, looping over the architectures\<close>

definition tweak_outputs :: "cc_env \<Rightarrow> path \<Rightarrow> string list" where
  \<comment> \<open>\<open>{file.name}-{now}.o\<close>, and for Swift the module \<open>{file.name}-{now}.swiftmodule\<close>\<close>
  "tweak_outputs env file =
     (let out_name = basename file @ ''-'' @ now env
      in if endswith file ''.swift'' then [out_name @ ''.o'', out_name @ ''.swiftmodule'']
         else [out_name @ ''.o''])"

fun compile_tweak_archs ::
  "cc_env \<Rightarrow> path \<Rightarrow> string list \<Rightarrow> objdir \<Rightarrow> invocation list \<times> objdir \<times> bool" where
  \<comment> \<open>\<open>for arch in archs: rmtree(...); <compile>\<close> inside one \<open>try\<close>: the first failure
      ends the loop\<close>
  "compile_tweak_archs env file [] od = ([], od, False)"
| "compile_tweak_archs env file (arch # rest) od =
     (let od1 = rmtree arch (basename file @ ''-*'') od;
          inv = \<lparr>inv_file = file, inv_arch = arch, inv_seen = od1\<rparr>;
          (od2, raised) = run_compiler env file arch (tweak_outputs env file) od1
      in if raised then ([inv], od2, True)
         else (let (invs, od3, r) = compile_tweak_archs env file rest od2
               in (inv # invs, od3, r)))"

definition compile_tweak_file ::
  "cc_env \<Rightarrow> path list \<Rightarrow> srcfile \<Rightarrow> objdir \<Rightarrow> invocation list \<times> objdir \<times> py_result" where
  "compile_tweak_file env files_paths f od =
     (case find (\<lambda>x. x = compile_path f) files_paths of
        None \<Rightarrow> ([], od, Raised)
      | Some file \<Rightarrow>
          (let (invs, od1, raised) = compile_tweak_archs env file (c_archs env) od
           in (invs, od1,
               if raised then Ret_error (compile_failed (c_name env)) else Ret_none)))"

fun compile_tweak_files ::
  "cc_env \<Rightarrow> path list \<Rightarrow> srcfile list \<Rightarrow> objdir \<Rightarrow> invocation list \<times> objdir \<times> py_result list"
  where
  \<comment> \<open>\<open>self.luzbuild.pool.map(self.__compile_tweak_file, self.files)\<close>\<close>
  "compile_tweak_files env files_paths [] od = ([], od, [])"
| "compile_tweak_files env files_paths (f # fs) od =
     (let (invs1, od1, r) = compile_tweak_file env files_paths f od;
          (invs2, od2, rs) = compile_tweak_files env files_paths fs od1
      in (invs1 @ invs2, od2, r # rs))"

fun clean_tweak_dirs :: "string list \<Rightarrow> objdir \<Rightarrow> objdir" where
  \<comment> \<open>\<open>for arch in archs: rmtree(f"{dir}/obj/{name}/{arch}"); makedirs(...)\<close>\<close>
  "clean_tweak_dirs [] od = od"
| "clean_tweak_dirs (arch # rest) od = clean_tweak_dirs rest (rmtree_arch arch od)"

definition Tweak_compile ::
  "cc_env \<Rightarrow> srcfile list \<Rightarrow> objdir \<Rightarrow> invocation list \<times> objdir \<times> py_result list" where
  \<comment> \<open>\<open>compile()\<close> up to the point where \<open>pool.map\<close> has returned\<close>
  "Tweak_compile env files od =
     (let od0 = clean_tweak_dirs (c_archs env) od;
          files_paths = map compile_path files
      in compile_tweak_files env files_paths files od0)"

text \<open>
  The invariant of the compile phase: whatever lies in the directory of a target
  architecture under a name \<open>{stem}-...\<close>, for the stem of a file being compiled, was written
  by the current run.
\<close>

definition fresh_in :: "cc_env \<Rightarrow> string set \<Rightarrow> objdir \<Rightarrow> bool" where
  "fresh_in env stems od =
     (\<forall>e \<in> set od. e_arch e \<in> set (c_archs env)
                      \<and> (\<exists>s \<in> stems. startswith (e_name e) (s @ ''-''))
                    \<longrightarrow> e_run e = run_id env)"

text \<open>
  What the cleaning command is written to do: no entry of the architecture's directory
  whose name begins with \<open>{stem}-\<close> is left. A shell does this to a command line in which
  the directory and the stem consist of characters it takes literally.
\<close>

definition prefix_deleted :: "string \<Rightarrow> string \<Rightarrow> objdir \<Rightarrow> objdir" where
  "prefix_deleted arch stem od =
     filter (\<lambda>e. \<not> (e_arch e = arch \<and> startswith (e_name e) (stem @ ''-''))) od"

subsection \<open>Concrete inputs for the compile phase\<close>




section \<open>Properties of the hashing phase\<close>

lemma hash_loop_changed:
  "set (fst (hash_loop env old n files (changed, nh))) =
     set changed \<union> {f \<in> set files. old f \<noteq> Some (get_hash env f)
                       \<or> length (object_paths env f) < n \<or> length (lipod_paths env) < n}"
  by (induction files arbitrary: changed nh) (auto simp: Let_def)

lemma hash_loop_new_hashes:
  "snd (hash_loop env old n files (changed, nh)) f =
     (if f \<in> set files then Some (get_hash env f) else nh f)"
  by (induction files arbitrary: changed nh) (auto simp: Let_def)

text \<open>
  C1, as the code has it. For every file the loop visits, in \<open>ModuleBuilder.__hash_files\<close> and
  in \<open>Tweak.__hash_files\<close> alike, the file is put on the list \<open>changed\<close> exactly when the
  cache has no hash for its path, or the cached hash differs from the current one, or the
  hash is unchanged and either the number of compiled objects found for the file or the
  number of per-architecture linked binaries found for the module is below the architecture
  count. The last disjunct is the one the claim leaves out.
\<close>

theorem hash_files_changed_iff:
  "(\<forall>file \<in> set (format_paths env files).
      (file \<in> set (ModuleBuilder_changed env files)) =
        (old_hashes env file = None \<or> old_hashes env file \<noteq> Some (get_hash env file)
         \<or> length (object_paths env file) < length (archs env)
         \<or> length (lipod_paths env) < length (archs env)))
   \<and> (\<forall>file \<in> set (Tweak_format_paths resolve (luz_path env) files).
      (file \<in> set (Tweak_changed env resolve hl files)) =
        (hl file = None \<or> hl file \<noteq> Some (get_hash env file)
         \<or> length (object_paths env file) < length (archs env)
         \<or> length (lipod_paths env) < length (archs env)))"
  by (auto simp: ModuleBuilder_changed_def Tweak_changed_def hash_loop_changed)

theorem hash_files_changed_iff_witness:
  "''/p/a.m'' \<in> set (format_paths env_linked_missing [''a.m''])
   \<and> ''/p/a.m'' \<in> set (ModuleBuilder_changed env_linked_missing [''a.m''])
   \<and> length (lipod_paths env_linked_missing) < length (archs env_linked_missing)"
proof -
  have mem: "''/p/a.m'' \<in> set (format_paths env_linked_missing [''a.m''])"
    by (simp add: format_paths_def env_linked_missing_def startswith_def)
  have short: "length (lipod_paths env_linked_missing) < length (archs env_linked_missing)"
    by (simp add: env_linked_missing_def)
  from hash_files_changed_iff
         [of env_linked_missing "[''a.m'']", THEN conjunct1, THEN bspec, OF mem] short
  show ?thesis using mem by simp
qed

text \<open>
  C1 as stated fails: a file whose hash is unchanged and whose two objects are both on disk
  is still marked changed when the module's per-architecture linked binaries are missing,
  although none of the claim's three conditions holds.
\<close>

theorem changed_verdict_counterexample:
  "\<not> ((''/p/a.m'' \<in> set (ModuleBuilder_changed env_linked_missing [''a.m''])) =
        claimed_verdict (old_hashes env_linked_missing ''/p/a.m'')
          (get_hash env_linked_missing ''/p/a.m'')
          (length (object_paths env_linked_missing ''/p/a.m''))
          (length (archs env_linked_missing)))"
  by (simp add: ModuleBuilder_changed_def env_linked_missing_def format_paths_def
        startswith_def old_hashes_def claimed_verdict_def)

text \<open>
  C2 at a failing input. The policy is on, \<open>a.m\<close> is unchanged with both objects and both
  linked binaries present, and only \<open>b.m\<close> was edited. The list \<open>changed\<close> holds \<open>b.m\<close>
  alone, yet \<open>__hash_files\<close> returns both files for compilation, in the ModuleBuilder and in
  the Tweak class: after the emptiness test the code resets \<open>files = files_to_compile\<close>.
\<close>

theorem one_edit_recompiles_every_file:
  "ModuleBuilder_changed env_one_edit [''a.m'', ''b.m''] = [''/p/b.m'']
   \<and> ModuleBuilder_hash_files env_one_edit [''a.m'', ''b.m'']
       = [Plain ''/p/a.m'', Plain ''/p/b.m'']
   \<and> Tweak_hash_files env_one_edit One (old_hashes env_one_edit) [''a.m'', ''b.m'']
       = [Plain ''/p/a.m'', Plain ''/p/b.m'']"
  by (simp add: ModuleBuilder_hash_files_def Tweak_hash_files_def Tweak_changed_def
        Tweak_format_paths_def ModuleBuilder_changed_def env_one_edit_def format_paths_def
        startswith_def old_hashes_def plain_logos_def)

text \<open>
  The rest of C2 holds on the code. With the policy on and no file judged changed,
  nothing is returned for compilation; with the policy off, every file is returned
  whatever the cache says; and in either case the dictionary handed to
  \<open>update_hashlist\<close> is the same one, with the current hash of every file (lemma
  \<open>ModuleBuilder_new_hashes_fresh\<close> below).
\<close>

lemma hash_files_nothing_changed:
  "only_compile_changed env \<Longrightarrow> ModuleBuilder_changed env files = [] \<Longrightarrow>
     ModuleBuilder_hash_files env files = []"
  by (simp add: ModuleBuilder_hash_files_def)

lemma hash_files_policy_off:
  "\<not> only_compile_changed env \<Longrightarrow>
     ModuleBuilder_hash_files env files =
       (if format_paths env files = [] then [] else logos env (format_paths env files))"
  by (simp add: ModuleBuilder_hash_files_def)

lemma Tweak_hash_files_nothing_changed:
  "only_compile_changed env \<Longrightarrow> Tweak_changed env resolve hl files = [] \<Longrightarrow>
     Tweak_hash_files env resolve hl files = []"
  by (simp add: Tweak_hash_files_def)

lemma Tweak_hash_files_policy_off:
  "\<not> only_compile_changed env \<Longrightarrow>
     Tweak_hash_files env resolve hl files =
       (if Tweak_format_paths resolve (luz_path env) files = [] then []
        else logos env (Tweak_format_paths resolve (luz_path env) files))"
  by (simp add: Tweak_hash_files_def)

text \<open>
  C3 at a failing input. \<open>Tool.__hash_files\<close> finds \<open>old\<close> recorded for \<open>/p/main.c\<close>, the
  file now hashes to \<open>new\<close>, and the dictionary written back still maps the path to \<open>old\<close>:
  the \<open>update\<close> with the old entries runs after the fresh hashes were stored and overwrites
  them.
\<close>

theorem Tool_hash_files_keeps_stale_hash:
  "snd (Tool_hash_files One (\<lambda>_. ''new'') (Some [''/p/main.c'' \<mapsto> ''old'']) [''/p/main.c''])
     ''/p/main.c'' = Some ''old''"
  by (simp add: Tool_hash_files_def Tool_format_paths_def map_add_def restrict_map_def)

text \<open>
  The sibling path does what the claim says: the dictionary \<open>ModuleBuilder.__hash_files\<close>
  and \<open>Tweak.__hash_files\<close> hand to \<open>update_hashlist\<close> maps every processed path to its
  current hash, whatever the verdict was.
\<close>

lemma ModuleBuilder_new_hashes_fresh:
  "file \<in> set (format_paths env files) \<Longrightarrow>
     ModuleBuilder_new_hashes env files file = Some (get_hash env file)"
  by (simp add: ModuleBuilder_new_hashes_def hash_loop_new_hashes)

lemma Tweak_new_hashes_fresh:
  "file \<in> set (Tweak_format_paths resolve (luz_path env) files) \<Longrightarrow>
     Tweak_new_hashes env resolve hl files file = Some (get_hash env file)"
  by (simp add: Tweak_new_hashes_def hash_loop_new_hashes)

section \<open>Properties of the linker\<close>

text \<open>
  C6. When no file needs compiling and the linked artifact exists, \<open>__linker\<close> returns at
  once: no tool is started and the result is \<open>None\<close>. When the artifact does not exist the
  early return is not taken, whatever the file list: tools are started, and the first one is the
  link for the first architecture (the lipo when the architecture list is empty). Both
  hold for \<open>ModuleBuilder.__linker\<close> and \<open>Tweak.__linker\<close>.
\<close>

theorem linker_skip_iff_up_to_date:
  "(length (l_files env) = 0 \<and> out_exists env \<longrightarrow>
       ModuleBuilder_linker env = ([], None) \<and> Tweak_linker env = ([], None))
   \<and> (\<not> out_exists env \<longrightarrow>
       fst (ModuleBuilder_linker env) \<noteq> [] \<and> fst (Tweak_linker env) \<noteq> []
       \<and> hd (fst (ModuleBuilder_linker env)) = (case l_archs env of [] \<Rightarrow> Lipo | a # _ \<Rightarrow> Link a)
       \<and> hd (fst (Tweak_linker env)) = (case l_archs env of [] \<Rightarrow> Lipo | a # _ \<Rightarrow> Link a))"
  by (cases "l_archs env")
     (auto simp: ModuleBuilder_linker_def Tweak_linker_def Let_def split: prod.splits option.splits)

theorem linker_skip_iff_up_to_date_witness:
  "length (l_files link_env_up_to_date) = 0 \<and> out_exists link_env_up_to_date
   \<and> ModuleBuilder_linker link_env_up_to_date = ([], None)
   \<and> Tweak_linker link_env_up_to_date = ([], None)
   \<and> l_files (link_env_up_to_date\<lparr>out_exists := False\<rparr>) = []
   \<and> hd (fst (ModuleBuilder_linker (link_env_up_to_date\<lparr>out_exists := False\<rparr>))) = Link ''arm64''
   \<and> hd (fst (Tweak_linker (link_env_up_to_date\<lparr>out_exists := False\<rparr>))) = Link ''arm64''"
proof -
  have a: "length (l_files link_env_up_to_date) = 0 \<and> out_exists link_env_up_to_date"
    by (simp add: link_env_up_to_date_def)
  have b: "\<not> out_exists (link_env_up_to_date\<lparr>out_exists := False\<rparr>)"
    by simp
  have c: "l_archs (link_env_up_to_date\<lparr>out_exists := False\<rparr>) = [''arm64'', ''arm64e'']"
    by (simp add: link_env_up_to_date_def)
  from linker_skip_iff_up_to_date [of link_env_up_to_date, THEN conjunct1, rule_format, OF a]
       linker_skip_iff_up_to_date
         [of "link_env_up_to_date\<lparr>out_exists := False\<rparr>", THEN conjunct2, rule_format, OF b]
  show ?thesis using a c by (simp add: link_env_up_to_date_def)
qed

section \<open>Properties of staging\<close>

lemma copytree_dst:
  "fs src = Some names \<Longrightarrow> \<exists>fs' es. copytree src dst fs = Some fs' \<and> fs' dst = Some es
      \<and> set names \<subseteq> set es \<and> (\<forall>p. p \<noteq> dst \<longrightarrow> fs' p = fs p)"
  by (auto simp: copytree_def split: option.splits)

lemma makedirs_other: "fs p = Some x \<Longrightarrow> (if fs d = None then makedirs d fs else fs) p = Some x"
  by (auto simp: makedirs_def)

lemma makedirs_none: "p \<noteq> d \<Longrightarrow> (if fs d = None then makedirs d fs else fs) p = fs p"
  by (auto simp: makedirs_def split: option.splits)

text \<open>
  C7, as the code has it. When the project has no \<open>Resources\<close> directory (and the linked
  library directory exists), \<open>Preferences.__stage\<close> returns the error string
  \<open>Resources/ folder for "<name>" does not exist\<close>, which names the module. It does so
  after the library directory was copied: the bundle directory then exists and holds at
  least the library's files, and nothing of \<open>Resources\<close> was created. The same holds for
  the builder's \<open>__stage\<close>, counted from the state its \<open>before_stage\<close> hook leaves.
\<close>

theorem preferences_stage_without_resources:
  "(fs (dir @ ''/dylib/'' @ name) = Some libs
      \<and> fs (rp (lpath @ ''/Resources'')) = None
      \<and> rp (lpath @ ''/Resources'') \<noteq> Preferences_dirtomake rp dir rootless
      \<and> rp (lpath @ ''/Resources'') \<noteq> Preferences_dirtocopy rp dir name rootless
    \<longrightarrow> snd (Preferences_stage rp dir name rootless lpath fs) = Stage_error (resources_missing name)
        \<and> (\<exists>names. fst (Preferences_stage rp dir name rootless lpath fs)
                      (Preferences_dirtocopy rp dir name rootless) = Some names
                    \<and> set libs \<subseteq> set names)
        \<and> fst (Preferences_stage rp dir name rootless lpath fs) (rp (lpath @ ''/Resources'')) = None)
   \<and> (run_hook before_stage fs (rp (dir @ ''/dylib/'' @ name)) = Some libs
      \<and> run_hook before_stage fs (rp (lpath @ ''/Resources'')) = None
      \<and> rp (lpath @ ''/Resources'') \<noteq> Preferences_dirtomake rp dir rootless
      \<and> rp (lpath @ ''/Resources'') \<noteq> Preferences_dirtocopy rp dir name rootless
    \<longrightarrow> snd (PreferencesBuilder_stage rp dir name rootless lpath before_stage after_stage fs)
          = Stage_error (resources_missing name)
        \<and> (\<exists>names. fst (PreferencesBuilder_stage rp dir name rootless lpath before_stage after_stage fs)
                      (Preferences_dirtocopy rp dir name rootless) = Some names
                    \<and> set libs \<subseteq> set names)
        \<and> fst (PreferencesBuilder_stage rp dir name rootless lpath before_stage after_stage fs)
            (rp (lpath @ ''/Resources'')) = None)"
proof (intro conjI impI)
  let ?R = "rp (lpath @ ''/Resources'')"
  let ?M = "Preferences_dirtomake rp dir rootless"
  let ?B = "Preferences_dirtocopy rp dir name rootless"
  {
    fix f0 :: fs and L
    assume h: "f0 L = Some libs \<and> f0 ?R = None \<and> ?R \<noteq> ?M \<and> ?R \<noteq> ?B"
    define f1 where "f1 = (if f0 ?M = None then makedirs ?M f0 else f0)"
    have l1: "f1 L = Some libs" using h by (simp add: f1_def makedirs_other)
    have r1: "f1 ?R = None" using h makedirs_none [of ?R ?M f0] by (simp add: f1_def)
    from copytree_dst [where fs = f1 and src = L and dst = "?B", OF l1] obtain f2 es where
      c: "copytree L ?B f1 = Some f2" and b: "f2 ?B = Some es" and sub: "set libs \<subseteq> set es"
      and frame: "\<forall>p. p \<noteq> ?B \<longrightarrow> f2 p = f1 p" by blast
    have r2: "f2 ?R = None" using frame r1 h by simp
    have "\<exists>f2 es. copytree L ?B f1 = Some f2 \<and> f2 ?B = Some es \<and> set libs \<subseteq> set es \<and> f2 ?R = None"
      using c b sub r2 by blast
  }
  note core = this [unfolded Let_def]
  {
    assume h: "fs (dir @ ''/dylib/'' @ name) = Some libs \<and> fs ?R = None \<and> ?R \<noteq> ?M \<and> ?R \<noteq> ?B"
    from core [OF h] obtain f2 es where
      "copytree (dir @ ''/dylib/'' @ name) ?B (if fs ?M = None then makedirs ?M fs else fs) = Some f2"
      "f2 ?B = Some es" "set libs \<subseteq> set es" "f2 ?R = None" by blast
    then show "snd (Preferences_stage rp dir name rootless lpath fs) = Stage_error (resources_missing name)"
      and "\<exists>names. fst (Preferences_stage rp dir name rootless lpath fs) ?B = Some names \<and> set libs \<subseteq> set names"
      and "fst (Preferences_stage rp dir name rootless lpath fs) ?R = None"
      by (simp_all add: Preferences_stage_def Let_def)
  }
  {
    assume h: "run_hook before_stage fs (rp (dir @ ''/dylib/'' @ name)) = Some libs
      \<and> run_hook before_stage fs ?R = None \<and> ?R \<noteq> ?M \<and> ?R \<noteq> ?B"
    from core [OF h] obtain f2 es where
      "copytree (rp (dir @ ''/dylib/'' @ name)) ?B
         (if run_hook before_stage fs ?M = None then makedirs ?M (run_hook before_stage fs)
          else run_hook before_stage fs) = Some f2"
      "f2 ?B = Some es" "set libs \<subseteq> set es" "f2 ?R = None" by blast
    then show "snd (PreferencesBuilder_stage rp dir name rootless lpath before_stage after_stage fs)
          = Stage_error (resources_missing name)"
      and "\<exists>names. fst (PreferencesBuilder_stage rp dir name rootless lpath before_stage after_stage fs) ?B = Some names \<and> set libs \<subseteq> set names"
      and "fst (PreferencesBuilder_stage rp dir name rootless lpath before_stage after_stage fs) ?R = None"
      by (simp_all add: PreferencesBuilder_stage_def Let_def)
  }
qed


theorem preferences_stage_without_resources_witness:
  "fs_no_resources ''/b/dylib/P'' = Some [''P.dylib'']
   \<and> fs_no_resources ''/p/Resources'' = None
   \<and> snd (Preferences_stage (\<lambda>p. p) ''/b'' ''P'' False ''/p'' fs_no_resources)
       = Stage_error (resources_missing ''P'')
   \<and> fst (Preferences_stage (\<lambda>p. p) ''/b'' ''P'' False ''/p'' fs_no_resources) ''/p/Resources''
       = None
   \<and> snd (PreferencesBuilder_stage (\<lambda>p. p) ''/b'' ''P'' False ''/p'' None None fs_no_resources)
       = Stage_error (resources_missing ''P'')"
proof -
  have a: "fs_no_resources (''/b'' @ ''/dylib/'' @ ''P'') = Some [''P.dylib'']
      \<and> fs_no_resources ((\<lambda>p. p) (''/p'' @ ''/Resources'')) = None
      \<and> (\<lambda>p. p) (''/p'' @ ''/Resources'') \<noteq> Preferences_dirtomake (\<lambda>p. p) ''/b'' False
      \<and> (\<lambda>p. p) (''/p'' @ ''/Resources'') \<noteq> Preferences_dirtocopy (\<lambda>p. p) ''/b'' ''P'' False"
    by (simp add: fs_no_resources_def Preferences_dirtomake_def Preferences_dirtocopy_def)
  have b: "run_hook None fs_no_resources ((\<lambda>p. p) (''/b'' @ ''/dylib/'' @ ''P'')) = Some [''P.dylib'']
      \<and> run_hook None fs_no_resources ((\<lambda>p. p) (''/p'' @ ''/Resources'')) = None
      \<and> (\<lambda>p. p) (''/p'' @ ''/Resources'') \<noteq> Preferences_dirtomake (\<lambda>p. p) ''/b'' False
      \<and> (\<lambda>p. p) (''/p'' @ ''/Resources'') \<noteq> Preferences_dirtocopy (\<lambda>p. p) ''/b'' ''P'' False"
    by (simp add: fs_no_resources_def Preferences_dirtomake_def Preferences_dirtocopy_def
          run_hook_def)
  from preferences_stage_without_resources
         [where rp = "\<lambda>p. p" and dir = "''/b''" and name = "''P''" and rootless = False
            and lpath = "''/p''" and fs = fs_no_resources and libs = "[''P.dylib'']"
            and before_stage = None and after_stage = None]
  have "snd (Preferences_stage (\<lambda>p. p) ''/b'' ''P'' False ''/p'' fs_no_resources)
          = Stage_error (resources_missing ''P'')
      \<and> fst (Preferences_stage (\<lambda>p. p) ''/b'' ''P'' False ''/p'' fs_no_resources)
            ((\<lambda>p. p) (''/p'' @ ''/Resources'')) = None
      \<and> snd (PreferencesBuilder_stage (\<lambda>p. p) ''/b'' ''P'' False ''/p'' None None fs_no_resources)
          = Stage_error (resources_missing ''P'')"
    using a b by blast
  then show ?thesis by (simp add: fs_no_resources_def)
qed

text \<open>
  C7 as stated fails: with no \<open>Resources\<close> directory, staging returns its error and leaves a
  bundle directory that did not exist before and now holds the library alone.
\<close>

theorem partial_bundle_counterexample:
  "fs_no_resources ''/b/_/Library/PreferenceBundles/P.bundle'' = None
   \<and> snd (Preferences_stage (\<lambda>p. p) ''/b'' ''P'' False ''/p'' fs_no_resources)
       = Stage_error (resources_missing ''P'')
   \<and> fst (Preferences_stage (\<lambda>p. p) ''/b'' ''P'' False ''/p'' fs_no_resources)
       ''/b/_/Library/PreferenceBundles/P.bundle'' = Some [''P.dylib'']
   \<and> fst (PreferencesBuilder_stage (\<lambda>p. p) ''/b'' ''P'' False ''/p'' None None fs_no_resources)
       ''/b/_/Library/PreferenceBundles/P.bundle'' = Some [''P.dylib'']"
  by (simp add: Preferences_stage_def PreferencesBuilder_stage_def fs_no_resources_def
        Preferences_dirtomake_def Preferences_dirtocopy_def makedirs_def copytree_def run_hook_def)


text \<open>
  C9. In rootless mode the destination \<open>Tool.__stage\<close> and \<open>Tweak.__stage\<close> copy into is the
  resolved path of the staging root, \<open>/var/jb/\<close>, and then the install path: the variant
  default (\<open>usr/bin\<close>, \<open>usr/lib/TweakInject\<close>) or the resolved override. The warning is
  emitted exactly when an override meets rootless mode.
\<close>

lemma Tool_stage_dirtocopy:
  "dirtocopy (Tool_stage rp dir name rootless install_dir fs) =
     (case install_dir of
        None \<Rightarrow> (if \<not> rootless then rp (dir @ ''/_/usr/bin'') else rp (dir @ ''/_/var/jb/usr/bin''))
      | Some d \<Rightarrow> (if \<not> rootless then rp (dir @ ''/_/'' @ rp d) else rp (dir @ ''/_/var/jb/'' @ rp d)))"
  by (cases install_dir; cases rootless)
     (simp_all add: Tool_stage_def Let_def split: option.split)

lemma Tool_stage_warnings:
  "warnings (Tool_stage rp dir name rootless install_dir fs) =
     (if rootless \<and> install_dir \<noteq> None then [custom_dir_warning name] else [])"
  by (cases install_dir; cases rootless)
     (simp_all add: Tool_stage_def Let_def split: option.split)

lemma Tweak_stage_dirtocopy:
  "dirtocopy (Tweak_stage rp dir name rootless install_dir fs) =
     (case install_dir of
        None \<Rightarrow> (if \<not> rootless then rp (dir @ ''/_/Library/MobileSubstrate/DynamicLibraries/'')
                 else rp (dir @ ''/_/var/jb/usr/lib/TweakInject''))
      | Some d \<Rightarrow> (if \<not> rootless then rp (dir @ ''/_/'' @ rp d) else rp (dir @ ''/_/var/jb/'' @ rp d)))"
  by (cases install_dir; cases rootless)
     (simp_all add: Tweak_stage_def Let_def split: option.split)

lemma Tweak_stage_warnings:
  "warnings (Tweak_stage rp dir name rootless install_dir fs) =
     (if rootless \<and> install_dir \<noteq> None then [custom_dir_warning name] else [])"
  by (cases install_dir; cases rootless)
     (simp_all add: Tweak_stage_def Let_def split: option.split)

theorem rootless_install_path_prefixed:
  "(rootless \<longrightarrow>
      dirtocopy (Tool_stage rp dir name rootless install_dir fs)
        = rp (dir @ ''/_/var/jb/'' @ (case install_dir of None \<Rightarrow> ''usr/bin'' | Some d \<Rightarrow> rp d))
      \<and> dirtocopy (Tweak_stage rp dir name rootless install_dir fs)
        = rp (dir @ ''/_/var/jb/''
               @ (case install_dir of None \<Rightarrow> ''usr/lib/TweakInject'' | Some d \<Rightarrow> rp d)))
   \<and> warnings (Tool_stage rp dir name rootless install_dir fs)
        = (if rootless \<and> install_dir \<noteq> None then [custom_dir_warning name] else [])
   \<and> warnings (Tweak_stage rp dir name rootless install_dir fs)
        = (if rootless \<and> install_dir \<noteq> None then [custom_dir_warning name] else [])"
  by (simp add: Tool_stage_dirtocopy Tool_stage_warnings Tweak_stage_dirtocopy
        Tweak_stage_warnings split: option.split)

theorem rootless_install_path_prefixed_witness:
  "dirtocopy (Tool_stage (\<lambda>p. p) ''/b'' ''T'' True (Some ''/usr/local/bin'') Map.empty)
     = ''/b/_/var/jb//usr/local/bin''
   \<and> dirtocopy (Tweak_stage (\<lambda>p. p) ''/b'' ''T'' True None Map.empty)
     = ''/b/_/var/jb/usr/lib/TweakInject''
   \<and> warnings (Tool_stage (\<lambda>p. p) ''/b'' ''T'' True (Some ''/usr/local/bin'') Map.empty)
     = [custom_dir_warning ''T'']
   \<and> warnings (Tweak_stage (\<lambda>p. p) ''/b'' ''T'' True None Map.empty) = []"
  using rootless_install_path_prefixed
          [where rootless = True and rp = "\<lambda>p. p" and dir = "''/b''" and name = "''T''"
             and install_dir = "Some ''/usr/local/bin''" and fs = Map.empty]
        rootless_install_path_prefixed
          [where rootless = True and rp = "\<lambda>p. p" and dir = "''/b''" and name = "''T''"
             and install_dir = None and fs = Map.empty]
  by simp

section \<open>Properties of the constructors\<close>

lemma framework_flags_empty: "(framework_flags fws = []) = (fws = [])"
  by (cases fws) (simp_all add: framework_flags_def)

text \<open>
  C10, as the code has it. The two constructors test different things. \<open>Module.__init__\<close>
  exits with an error exactly when private frameworks are declared and the SDK path starts
  with \<open>/Applications\<close>; in every other case it sets the framework search option to the
  SDK's \<open>PrivateFrameworks\<close> directory. \<open>ModuleBuilder.__init__\<close> raises when private
  frameworks are declared and that directory does not exist, and appends the directory to
  the framework search paths when it exists; only then does the hashing phase run.
\<close>

theorem private_frameworks_checked_at_construction:
  "(private_frameworksD @ private_frameworks \<noteq> [] \<and> startswith sdk ''/Applications''
      \<longrightarrow> Module_init sdk private_frameworksD private_frameworks
            = Inl (Exit ''No SDK specified. Xcode will be used, and private frameworks will not be found.''))
   \<and> (\<not> (private_frameworksD @ private_frameworks \<noteq> [] \<and> startswith sdk ''/Applications'')
      \<longrightarrow> (\<exists>m. Module_init sdk private_frameworksD private_frameworks = Inr m
               \<and> m_framework_dirs m = ''-F'' @ sdk @ ''/System/Library/PrivateFrameworks''))
   \<and> (pfs \<noteq> [] \<and> \<not> exists (resolve_path env (sdk @ ''/System/Library/PrivateFrameworks''))
      \<longrightarrow> ModuleBuilder_init env sdk cloned_libs storage exists fds pfs files
            = Inl (Raise (''Private frameworks are not available on the SDK being used. ('' @ sdk @ '')'')))
   \<and> (pfs \<noteq> [] \<and> exists (resolve_path env (sdk @ ''/System/Library/PrivateFrameworks''))
      \<longrightarrow> (\<exists>b. ModuleBuilder_init env sdk cloned_libs storage exists fds pfs files = Inr b
               \<and> sdk @ ''/System/Library/PrivateFrameworks'' \<in> set (b_framework_dirs b)
               \<and> b_files b = ModuleBuilder_hash_files env files))"
  by (auto simp: Module_init_def ModuleBuilder_init_def Let_def framework_flags_empty)

theorem private_frameworks_checked_at_construction_witness:
  "Module_init ''/Applications/Xcode.app/SDKs/iPhoneOS.sdk'' [] [''Preferences'']
     = Inl (Exit ''No SDK specified. Xcode will be used, and private frameworks will not be found.'')
   \<and> ModuleBuilder_init env_one_edit ''/opt/sdk'' ''/l'' ''/s'' (\<lambda>_. False) [] [''Preferences''] []
     = Inl (Raise ''Private frameworks are not available on the SDK being used. (/opt/sdk)'')"
proof -
  have a: "[] @ [''Preferences''] \<noteq> []
      \<and> startswith ''/Applications/Xcode.app/SDKs/iPhoneOS.sdk'' ''/Applications''"
    by (simp add: startswith_def)
  have b: "[''Preferences''] \<noteq> []
      \<and> \<not> (\<lambda>_. False) (resolve_path env_one_edit (''/opt/sdk'' @ ''/System/Library/PrivateFrameworks''))"
    by simp
  from private_frameworks_checked_at_construction
         [where sdk = "''/Applications/Xcode.app/SDKs/iPhoneOS.sdk''" and private_frameworksD = "[]"
            and private_frameworks = "[''Preferences'']", THEN conjunct1, rule_format, OF a]
       private_frameworks_checked_at_construction
         [where sdk = "''/opt/sdk''" and pfs = "[''Preferences'']" and exists = "\<lambda>_. False"
            and env = env_one_edit and cloned_libs = "''/l''" and storage = "''/s''"
            and fds = "[]" and files = "[]",
          THEN conjunct2, THEN conjunct2, THEN conjunct1, rule_format, OF b]
  show ?thesis by simp
qed

text \<open>
  C10 as stated fails on either constructor. An SDK outside \<open>/Applications\<close> that has no
  \<open>PrivateFrameworks\<close> directory passes \<open>Module.__init__\<close>, and an SDK at the Xcode location
  whose directory exists passes \<open>ModuleBuilder.__init__\<close>; the claim counts both SDKs as
  unable to supply private frameworks.
\<close>

theorem cannot_supply_counterexample:
  "claimed_cannot_supply ''/opt/sdk'' False
   \<and> Module_init ''/opt/sdk'' [] [''Preferences'']
       = Inr \<lparr>m_private_frameworks = '' -framework Preferences'',
              m_framework_dirs = ''-F/opt/sdk/System/Library/PrivateFrameworks''\<rparr>
   \<and> claimed_cannot_supply ''/Applications/Xcode.app/SDKs/iPhoneOS.sdk'' True
   \<and> ModuleBuilder_init env_one_edit ''/Applications/Xcode.app/SDKs/iPhoneOS.sdk'' ''/l'' ''/s''
         (\<lambda>_. True) [] [''Preferences''] []
       = Inr \<lparr>b_framework_dirs = [''/l'', ''/Applications/Xcode.app/SDKs/iPhoneOS.sdk/System/Library/Frameworks'',
                 ''/s/lib'', ''/Applications/Xcode.app/SDKs/iPhoneOS.sdk/System/Library/PrivateFrameworks''],
              b_files = []\<rparr>"
  by (simp add: claimed_cannot_supply_def startswith_def Module_init_def ModuleBuilder_init_def
        framework_flags_def env_one_edit_def ModuleBuilder_hash_files_def format_paths_def
        ModuleBuilder_changed_def)

section \<open>Properties of the project build\<close>

lemma build_modules_run:
  "m \<in> set ms \<Longrightarrow> Compile n (fst m) \<in> set (fst (build (Project n (Some ms) subs)))"
  by (auto simp: Let_def split: option.splits)

lemma build_abort:
  "first_error (map snd ms) = Some e \<Longrightarrow>
     build (Project n (Some ms) subs) = (Build n # map (\<lambda>m. Compile n (fst m)) ms @ [Report e], Exited)"
  by (simp add: Let_def)

lemma build_head: "\<exists>t. fst (build p) = Build (p_name p) # t"
  by (cases p) (auto simp: Let_def split: option.splits)

lemma build_subs:
  "first_error (map snd ms) = None \<Longrightarrow> s \<in> set subs \<Longrightarrow>
     Build (p_name s) \<in> set (fst (build (Project n (Some ms) subs)))"
proof -
  assume a: "first_error (map snd ms) = None" and b: "s \<in> set subs"
  obtain t where t: "fst (build s) = Build (p_name s) # t" using build_head by blast
  have "Build (p_name s) \<in> set (concat (map fst (map build subs)))"
    using b t by (auto intro!: bexI [of _ s])
  with a b show ?thesis by (auto simp: Let_def)
qed

text \<open>
  C5, as the code has it. \<open>build()\<close> starts the pipeline of every module, whether or not
  another module fails. If a module returned an error, the first such error in declaration
  order is reported and the run exits there: nothing else is reported and no sub-project is
  built. If no module failed, the build of every sub-project is started.
\<close>

theorem build_runs_modules_then_submodules:
  "(\<forall>m \<in> set ms. Compile n (fst m) \<in> set (fst (build (Project n (Some ms) subs))))
   \<and> (\<forall>e. first_error (map snd ms) = Some e \<longrightarrow>
        build (Project n (Some ms) subs)
          = (Build n # map (\<lambda>m. Compile n (fst m)) ms @ [Report e], Exited))
   \<and> (first_error (map snd ms) = None \<longrightarrow>
        (\<forall>s \<in> set subs. Build (p_name s) \<in> set (fst (build (Project n (Some ms) subs)))))"
  using build_modules_run build_abort build_subs by blast

theorem build_runs_modules_then_submodules_witness:
  "Compile ''app'' ''A'' \<in> set (fst (build project_all_fine))
   \<and> Build ''sub'' \<in> set (fst (build project_all_fine))
   \<and> build project_two_failures
       = ([Build ''app'', Compile ''app'' ''A'', Compile ''app'' ''B'', Report ''errA''], Exited)"
proof -
  let ?ok = "[(''A'', None), (''B'', None)] :: (string \<times> string option) list"
  let ?bad = "[(''A'', Some ''errA''), (''B'', Some ''errB'')] :: (string \<times> string option) list"
  let ?sub = "Project ''sub'' (Some [(''S'', None)]) []"
  have m: "(''A'', None) \<in> set ?ok" by simp
  have s: "?sub \<in> set [?sub]" by simp
  have ok: "first_error (map snd ?ok) = None" by simp
  have bad: "first_error (map snd ?bad) = Some ''errA''" by simp
  note t = build_runs_modules_then_submodules [where n = "''app''" and subs = "[?sub]"]
  from t [where ms = ?ok, THEN conjunct1, THEN bspec, OF m]
       t [where ms = ?ok, THEN conjunct2, THEN conjunct2, rule_format, OF ok s]
       t [where ms = ?bad, THEN conjunct2, THEN conjunct1, rule_format, OF bad]
  show ?thesis by (simp add: project_all_fine_def project_two_failures_def)
qed

text \<open>
  C5 as stated fails: with two failing modules and a sub-project, the run ends after
  reporting the first failure alone, and the sub-project is never built.
\<close>

theorem build_fail_fast_counterexample:
  "build project_two_failures
     = ([Build ''app'', Compile ''app'' ''A'', Compile ''app'' ''B'', Report ''errA''], Exited)
   \<and> Build ''sub'' \<notin> set (fst (build project_two_failures))
   \<and> Report ''errB'' \<notin> set (fst (build project_two_failures))"
  by (simp add: project_two_failures_def)

section \<open>Properties of the compile phase\<close>

lemma set_rmtree: "set (rmtree a l od) \<subseteq> set od"
  by (auto simp: rmtree_def)

lemma fresh_in_subset: "fresh_in env stems od \<Longrightarrow> set od' \<subseteq> set od \<Longrightarrow> fresh_in env stems od'"
  by (auto simp: fresh_in_def)

lemma fresh_in_rmtree: "fresh_in env stems od \<Longrightarrow> fresh_in env stems (rmtree a l od)"
  using fresh_in_subset set_rmtree by blast

lemma fresh_in_write: "fresh_in env stems od \<Longrightarrow> fresh_in env stems (write_entry a n (run_id env) od)"
  by (auto simp: fresh_in_def write_entry_def)

lemma fresh_in_fold_write:
  "fresh_in env stems od \<Longrightarrow> fresh_in env stems (fold (\<lambda>n. write_entry a n (run_id env)) outs od)"
  by (induction outs arbitrary: od) (auto simp: fresh_in_write)

lemma fresh_in_run_compiler:
  "fresh_in env stems od \<Longrightarrow> fresh_in env stems (fst (run_compiler env f a outs od))"
  by (auto simp: run_compiler_def fresh_in_fold_write split: cc_outcome.splits)

lemma run_compiler_ok:
  "fresh_in env stems od \<Longrightarrow> run_compiler env f a outs od = (od2, raised) \<Longrightarrow> fresh_in env stems od2"
  using fresh_in_run_compiler [where env = env and stems = stems and f = f and a = a
          and od = od and outs = outs]
  by simp

lemma compile_c_arch_ok:
  assumes "fresh_in env stems od" and "compile_c_arch env f a od = (iv, od', r)"
  shows "fresh_in env stems od' \<and> fresh_in env stems (inv_seen iv) \<and> inv_file iv = f \<and> inv_arch iv = a"
proof -
  let ?od1 = "rmtree a (basename f @ ''-*'') od"
  have fr: "fresh_in env stems ?od1" using assms(1) by (rule fresh_in_rmtree)
  obtain od2 raised where rc: "run_compiler env f a [basename f @ ''-'' @ now env @ ''.o''] ?od1 = (od2, raised)"
    by (cases "run_compiler env f a [basename f @ ''-'' @ now env @ ''.o''] ?od1")
  from run_compiler_ok [OF fr rc] have "fresh_in env stems od2" .
  moreover from assms(2) rc have "od' = od2" "iv = \<lparr>inv_file = f, inv_arch = a, inv_seen = ?od1\<rparr>"
    by (simp_all add: compile_c_arch_def Let_def)
  ultimately show ?thesis using fr by simp
qed

lemma compile_swift_arch_ok:
  assumes "fresh_in env stems od" and "compile_swift_arch env f a od = (iv, od', r)"
  shows "fresh_in env stems od' \<and> fresh_in env stems (inv_seen iv) \<and> inv_file iv = f \<and> inv_arch iv = a"
proof -
  let ?od1 = "rmtree a (basename f @ ''-*'') od"
  have fr: "fresh_in env stems ?od1" using assms(1) by (rule fresh_in_rmtree)
  obtain od2 raised where rc: "run_compiler env f a [(basename f @ ''-'' @ now env) @ ''.o'', (basename f @ ''-'' @ now env) @ ''.swiftmodule''] ?od1 = (od2, raised)"
    by (cases "run_compiler env f a [(basename f @ ''-'' @ now env) @ ''.o'', (basename f @ ''-'' @ now env) @ ''.swiftmodule''] ?od1")
  from run_compiler_ok [OF fr rc] have "fresh_in env stems od2" .
  moreover from assms(2) rc have "od' = od2" "iv = \<lparr>inv_file = f, inv_arch = a, inv_seen = ?od1\<rparr>"
    by (simp_all add: compile_swift_arch_def Let_def)
  ultimately show ?thesis using fr by simp
qed

lemma compile_archs_ok:
  "fresh_in env stems od \<Longrightarrow> compile_archs env f as od = (invs, od', rs) \<Longrightarrow>
     fresh_in env stems od'
     \<and> (\<forall>i \<in> set invs. fresh_in env stems (inv_seen i))
     \<and> map (\<lambda>i. (inv_file i, inv_arch i)) invs = map (\<lambda>a. (f, a)) as"
proof (induction as arbitrary: od invs od' rs)
  case Nil
  then show ?case by simp
next
  case (Cons a as)
  obtain iv od1 r where t: "(if endswith f ''.swift'' then compile_swift_arch env f a od
             else compile_c_arch env f a od) = (iv, od1, r)"
    by (metis prod_cases3)
  obtain invs2 od2 rs2 where rest: "compile_archs env f as od1 = (invs2, od2, rs2)"
    by (metis prod_cases3)
  from t Cons.prems(1) have h: "fresh_in env stems od1 \<and> fresh_in env stems (inv_seen iv) \<and> inv_file iv = f \<and> inv_arch iv = a"
    using compile_c_arch_ok compile_swift_arch_ok by (metis (full_types))
  then have "fresh_in env stems od1" by simp
  from Cons.IH [OF this rest] have ih: "fresh_in env stems od2
     \<and> (\<forall>i \<in> set invs2. fresh_in env stems (inv_seen i))
     \<and> map (\<lambda>i. (inv_file i, inv_arch i)) invs2 = map (\<lambda>a. (f, a)) as" .
  from Cons.prems(2) t rest have "invs = iv # invs2" "od' = od2" by (simp_all add: Let_def)
  with h ih show ?case by simp
qed

lemma find_compile_path:
  "f \<in> set fs \<Longrightarrow> find (\<lambda>x. x = compile_path f) (map compile_path fs) = Some (compile_path f)"
  by (induction fs) auto

lemma find_Some_eq: "find (\<lambda>x. x = p) xs = Some y \<Longrightarrow> y = p \<and> p \<in> set xs"
  by (induction xs) (auto split: if_splits)

lemma compile_file_ok:
  "fresh_in env stems od \<Longrightarrow> compile_file env fps sf od = (invs, od', r) \<Longrightarrow>
     fresh_in env stems od'
     \<and> (\<forall>i \<in> set invs. fresh_in env stems (inv_seen i) \<and> inv_file i \<in> set fps
                          \<and> inv_arch i \<in> set (c_archs env))"
proof (cases "find (\<lambda>x. x = compile_path sf) fps")
  case None
  assume "fresh_in env stems od" "compile_file env fps sf od = (invs, od', r)"
  with None show ?thesis by (simp add: compile_file_def)
next
  case (Some p)
  assume fr: "fresh_in env stems od" and c: "compile_file env fps sf od = (invs, od', r)"
  obtain invs1 od1 rs where a: "compile_archs env p (c_archs env) od = (invs1, od1, rs)"
    by (metis prod_cases3)
  from compile_archs_ok [OF fr a] have ok: "fresh_in env stems od1"
     "\<forall>i \<in> set invs1. fresh_in env stems (inv_seen i)"
     "map (\<lambda>i. (inv_file i, inv_arch i)) invs1 = map (\<lambda>a. (p, a)) (c_archs env)" by simp_all
  from ok(3) have "\<forall>i \<in> set invs1. (inv_file i, inv_arch i) \<in> set (map (\<lambda>a. (p, a)) (c_archs env))"
    by (metis (no_types, lifting) image_eqI list.set_map)
  then have fa: "\<forall>i \<in> set invs1. inv_file i = p \<and> inv_arch i \<in> set (c_archs env)" by auto
  from find_Some_eq [OF Some] have "p \<in> set fps" by simp
  moreover from c Some a have "invs = invs1" "od' = od1" by (simp_all add: compile_file_def)
  ultimately show ?thesis using ok fa by simp
qed

lemma compile_files_ok:
  "fresh_in env stems od \<Longrightarrow> compile_files env fps sfs od = (invs, od', rs) \<Longrightarrow>
     fresh_in env stems od'
     \<and> (\<forall>i \<in> set invs. fresh_in env stems (inv_seen i) \<and> inv_file i \<in> set fps
                          \<and> inv_arch i \<in> set (c_archs env))"
proof (induction sfs arbitrary: od invs od' rs)
  case Nil
  then show ?case by simp
next
  case (Cons sf sfs)
  obtain invs1 od1 r where a: "compile_file env fps sf od = (invs1, od1, r)"
    by (metis prod_cases3)
  obtain invs2 od2 rs2 where b: "compile_files env fps sfs od1 = (invs2, od2, rs2)"
    by (metis prod_cases3)
  note h = compile_file_ok [OF Cons.prems(1) a]
  then have "fresh_in env stems od1" by simp
  note ih = Cons.IH [OF this b]
  from Cons.prems(2) a b have "invs = invs1 @ invs2" "od' = od2" by (simp_all add: Let_def)
  with h ih show ?case by auto
qed

lemma set_clean_tweak_dirs:
  "set (clean_tweak_dirs as od) = {e \<in> set od. e_arch e \<notin> set as}"
  by (induction as arbitrary: od) (auto simp: rmtree_arch_def)

lemma fresh_in_clean_tweak: "fresh_in env stems (clean_tweak_dirs (c_archs env) od)"
  by (auto simp: fresh_in_def set_clean_tweak_dirs)

lemma compile_tweak_archs_ok:
  "fresh_in env stems od \<Longrightarrow> compile_tweak_archs env f as od = (invs, od', r) \<Longrightarrow>
     fresh_in env stems od'
     \<and> (\<forall>i \<in> set invs. fresh_in env stems (inv_seen i) \<and> inv_file i = f \<and> inv_arch i \<in> set as)"
proof (induction as arbitrary: od invs od' r)
  case Nil
  then show ?case by simp
next
  case (Cons a as)
  let ?od1 = "rmtree a (basename f @ ''-*'') od"
  let ?outs = "tweak_outputs env f"
  have fr: "fresh_in env stems ?od1" using Cons.prems(1) by (rule fresh_in_rmtree)
  obtain od2 raised where rc: "run_compiler env f a ?outs ?od1 = (od2, raised)"
    by (cases "run_compiler env f a ?outs ?od1")
  from run_compiler_ok [OF fr rc] have fr2: "fresh_in env stems od2" .
  show ?case
  proof (cases raised)
    case True
    with Cons.prems(2) rc have "invs = [\<lparr>inv_file = f, inv_arch = a, inv_seen = ?od1\<rparr>]" "od' = od2"
      by (simp_all add: Let_def)
    with fr fr2 show ?thesis by simp
  next
    case False
    obtain invs3 od3 r3 where rest: "compile_tweak_archs env f as od2 = (invs3, od3, r3)"
      by (cases "compile_tweak_archs env f as od2")
    from Cons.prems(2) rc False rest
    have "invs = \<lparr>inv_file = f, inv_arch = a, inv_seen = ?od1\<rparr> # invs3" "od' = od3"
      by (simp_all add: Let_def)
    with Cons.IH [OF fr2 rest] fr show ?thesis by simp
  qed
qed

lemma compile_tweak_file_ok:
  assumes "fresh_in env stems od" and "compile_tweak_file env fps sf od = (invs, od', r)"
  shows "fresh_in env stems od'
     \<and> (\<forall>i \<in> set invs. fresh_in env stems (inv_seen i) \<and> inv_file i \<in> set fps
                          \<and> inv_arch i \<in> set (c_archs env))"
proof (cases "find (\<lambda>x. x = compile_path sf) fps")
  case None
  with assms show ?thesis by (simp add: compile_tweak_file_def)
next
  case (Some p)
  obtain invs1 od1 raised where a: "compile_tweak_archs env p (c_archs env) od = (invs1, od1, raised)"
    by (cases "compile_tweak_archs env p (c_archs env) od")
  note ok = compile_tweak_archs_ok [OF assms(1) a]
  from find_Some_eq [OF Some] have "p \<in> set fps" by simp
  moreover from assms(2) Some a have "invs = invs1" "od' = od1"
    by (simp_all add: compile_tweak_file_def)
  ultimately show ?thesis using ok by simp
qed

lemma compile_tweak_files_ok:
  "fresh_in env stems od \<Longrightarrow> compile_tweak_files env fps sfs od = (invs, od', rs) \<Longrightarrow>
     fresh_in env stems od'
     \<and> (\<forall>i \<in> set invs. fresh_in env stems (inv_seen i) \<and> inv_file i \<in> set fps
                          \<and> inv_arch i \<in> set (c_archs env))"
proof (induction sfs arbitrary: od invs od' rs)
  case Nil
  then show ?case by simp
next
  case (Cons sf sfs)
  obtain invs1 od1 r where a: "compile_tweak_file env fps sf od = (invs1, od1, r)"
    by (cases "compile_tweak_file env fps sf od")
  obtain invs2 od2 rs2 where b: "compile_tweak_files env fps sfs od1 = (invs2, od2, rs2)"
    by (cases "compile_tweak_files env fps sfs od1")
  note h = compile_tweak_file_ok [OF Cons.prems(1) a]
  then have "fresh_in env stems od1" by simp
  note ih = Cons.IH [OF this b]
  from Cons.prems(2) a b have "invs = invs1 @ invs2" "od' = od2" by (simp_all add: Let_def)
  with h ih show ?case by auto
qed

lemma Tweak_compile_fresh:
  assumes "i \<in> set (fst (Tweak_compile env files od))"
  shows "fresh_in env (basename ` set (map compile_path files)) (inv_seen i)
         \<and> inv_file i \<in> set (map compile_path files) \<and> inv_arch i \<in> set (c_archs env)"
proof -
  let ?fps = "map compile_path files"
  obtain invs od' rs where
    c: "compile_tweak_files env ?fps files (clean_tweak_dirs (c_archs env) od) = (invs, od', rs)"
    by (cases "compile_tweak_files env ?fps files (clean_tweak_dirs (c_archs env) od)")
  from compile_tweak_files_ok [OF fresh_in_clean_tweak c] assms c show ?thesis
    by (simp add: Tweak_compile_def Let_def)
qed

lemma compile_archs_tasks:
  "map (\<lambda>i. (inv_file i, inv_arch i)) (fst (compile_archs env f as od)) = map (\<lambda>a. (f, a)) as"
proof -
  obtain invs od' rs where c: "compile_archs env f as od = (invs, od', rs)"
    by (cases "compile_archs env f as od")
  have "fresh_in env {} od" by (simp add: fresh_in_def)
  from compile_archs_ok [OF this c] c show ?thesis by simp
qed

lemma compile_file_tasks:
  assumes "sf \<in> set files"
  shows "map (\<lambda>i. (inv_file i, inv_arch i)) (fst (compile_file env (map compile_path files) sf od))
       = map (\<lambda>a. (compile_path sf, a)) (c_archs env)"
proof -
  obtain invs od' rs where c: "compile_archs env (compile_path sf) (c_archs env) od = (invs, od', rs)"
    by (cases "compile_archs env (compile_path sf) (c_archs env) od")
  from compile_archs_tasks [of env "compile_path sf" "c_archs env" od] c
  have "map (\<lambda>i. (inv_file i, inv_arch i)) invs = map (\<lambda>a. (compile_path sf, a)) (c_archs env)"
    by simp
  moreover have "fst (compile_file env (map compile_path files) sf od) = invs"
    using c by (simp add: compile_file_def find_compile_path [OF assms])
  ultimately show ?thesis by simp
qed

lemma compile_files_tasks:
  "set sfs \<subseteq> set files \<Longrightarrow>
     map (\<lambda>i. (inv_file i, inv_arch i)) (fst (compile_files env (map compile_path files) sfs od))
       = concat (map (\<lambda>f. map (\<lambda>a. (compile_path f, a)) (c_archs env)) sfs)"
proof (induction sfs arbitrary: od)
  case Nil
  then show ?case by simp
next
  case (Cons sf sfs)
  then have m: "sf \<in> set files" and s: "set sfs \<subseteq> set files" by simp_all
  obtain invs1 od1 r where a: "compile_file env (map compile_path files) sf od = (invs1, od1, r)"
    by (cases "compile_file env (map compile_path files) sf od")
  obtain invs2 od2 rs where b: "compile_files env (map compile_path files) sfs od1 = (invs2, od2, rs)"
    by (cases "compile_files env (map compile_path files) sfs od1")
  from compile_file_tasks [OF m, of env od] a
  have h: "map (\<lambda>i. (inv_file i, inv_arch i)) invs1 = map (\<lambda>a. (compile_path sf, a)) (c_archs env)"
    by simp
  from Cons.IH [OF s, of od1] b
  have ih: "map (\<lambda>i. (inv_file i, inv_arch i)) invs2
       = concat (map (\<lambda>f. map (\<lambda>a. (compile_path f, a)) (c_archs env)) sfs)" by simp
  have "fst (compile_files env (map compile_path files) (sf # sfs) od) = invs1 @ invs2"
    using a b by (simp add: Let_def)
  with h ih show ?case by simp
qed

lemma fresh_in_matching:
  "fresh_in env stems od \<Longrightarrow> a \<in> set (c_archs env) \<Longrightarrow> s \<in> stems \<Longrightarrow>
     \<forall>e \<in> set od. e_arch e = a \<and> startswith (e_name e) (s @ ''-'') \<longrightarrow> e_run e = run_id env"
  by (auto simp: fresh_in_def)

text \<open>
  The \<open>rmtree\<close> at the head of every compile task is given the pattern \<open>{file.name}-*\<close> as a
  literal path. Object fragments are files, so it removes none of them.
\<close>

lemma rmtree_keeps_files: "\<forall>e \<in> set od. \<not> e_dir e \<Longrightarrow> rmtree a l od = od"
  by (induction od) (auto simp: rmtree_def)

text \<open>
  Where the shell does expand the pattern of the cleaning command as written, that is, for
  every command the loop issues it removes the entries beginning with \<open>{stem}-\<close>, the
  builder's compile phase does what C8 says: the compiler is started once for every file
  and architecture, and every entry it finds under that prefix was written by the current
  run.
\<close>

lemma clean_files_when_shell_globs:
  assumes "\<forall>x \<in> set fps. \<forall>od. sh env (clean_command env a x) od
                               = Some (prefix_deleted a (basename x) od)"
  shows "\<exists>od'. clean_files env a fps od = Some od'
           \<and> set od' = {e \<in> set od. \<not> (e_arch e = a
                           \<and> (\<exists>x \<in> set fps. startswith (e_name e) (basename x @ ''-'')))}"
  using assms
proof (induction fps arbitrary: od)
  case Nil
  then show ?case by simp
next
  case (Cons x xs)
  then have sx: "sh env (clean_command env a x) od = Some (prefix_deleted a (basename x) od)"
    and rest: "\<forall>x \<in> set xs. \<forall>od. sh env (clean_command env a x) od
                               = Some (prefix_deleted a (basename x) od)" by simp_all
  from Cons.IH [OF rest, of "prefix_deleted a (basename x) od"] obtain od' where
    "clean_files env a xs (prefix_deleted a (basename x) od) = Some od'"
    "set od' = {e \<in> set (prefix_deleted a (basename x) od). \<not> (e_arch e = a
                 \<and> (\<exists>x \<in> set xs. startswith (e_name e) (basename x @ ''-'')))}" by blast
  with sx show ?case by (auto simp: prefix_deleted_def)
qed

lemma clean_arch_dirs_when_shell_globs:
  assumes "\<forall>a \<in> set as. \<forall>x \<in> set fps. \<forall>od. sh env (clean_command env a x) od
                               = Some (prefix_deleted a (basename x) od)"
  shows "\<exists>od'. clean_arch_dirs env as fps od = Some od'
           \<and> set od' = {e \<in> set od. \<not> (e_arch e \<in> set as
                           \<and> (\<exists>x \<in> set fps. startswith (e_name e) (basename x @ ''-'')))}"
  using assms
proof (induction as arbitrary: od)
  case Nil
  then show ?case by simp
next
  case (Cons a as)
  then have ha: "\<forall>x \<in> set fps. \<forall>od. sh env (clean_command env a x) od
                               = Some (prefix_deleted a (basename x) od)"
    and rest: "\<forall>a \<in> set as. \<forall>x \<in> set fps. \<forall>od. sh env (clean_command env a x) od
                               = Some (prefix_deleted a (basename x) od)" by simp_all
  from clean_files_when_shell_globs [OF ha, of od] obtain od1 where
    c1: "clean_files env a fps od = Some od1"
    and s1: "set od1 = {e \<in> set od. \<not> (e_arch e = a
                 \<and> (\<exists>x \<in> set fps. startswith (e_name e) (basename x @ ''-'')))}" by blast
  from Cons.IH [OF rest, of od1] obtain od' where
    c2: "clean_arch_dirs env as fps od1 = Some od'"
    and s2: "set od' = {e \<in> set od1. \<not> (e_arch e \<in> set as
                 \<and> (\<exists>x \<in> set fps. startswith (e_name e) (basename x @ ''-'')))}" by blast
  from c1 c2 s1 s2 show ?case by auto
qed

lemma ModuleBuilder_compile_when_shell_globs:
  assumes "\<forall>a \<in> set (c_archs env). \<forall>x \<in> set (map compile_path files). \<forall>od.
             sh env (clean_command env a x) od = Some (prefix_deleted a (basename x) od)"
  shows "\<exists>invs od' rs. ModuleBuilder_compile env files od = Some (invs, od', rs)
           \<and> (\<forall>i \<in> set invs. \<forall>e \<in> set (inv_seen i).
                 e_arch e = inv_arch i \<and> startswith (e_name e) (basename (inv_file i) @ ''-'')
                 \<longrightarrow> e_run e = run_id env)
           \<and> map (\<lambda>i. (inv_file i, inv_arch i)) invs
               = concat (map (\<lambda>f. map (\<lambda>a. (compile_path f, a)) (c_archs env)) files)"
proof -
  let ?fps = "map compile_path files"
  let ?stems = "basename ` set ?fps"
  from clean_arch_dirs_when_shell_globs [OF assms, of od] obtain od0 where
    c: "clean_arch_dirs env (c_archs env) ?fps od = Some od0"
    and s: "set od0 = {e \<in> set od. \<not> (e_arch e \<in> set (c_archs env)
                 \<and> (\<exists>x \<in> set ?fps. startswith (e_name e) (basename x @ ''-'')))}" by blast
  have fr: "fresh_in env ?stems od0" using s by (auto simp: fresh_in_def)
  obtain invs od' rs where r: "compile_files env ?fps files od0 = (invs, od', rs)"
    by (cases "compile_files env ?fps files od0")
  have mb: "ModuleBuilder_compile env files od = Some (invs, od', rs)"
    using c r by (simp add: ModuleBuilder_compile_def)
  note ok = compile_files_ok [OF fr r]
  have seen: "\<forall>i \<in> set invs. \<forall>e \<in> set (inv_seen i).
                 e_arch e = inv_arch i \<and> startswith (e_name e) (basename (inv_file i) @ ''-'')
                 \<longrightarrow> e_run e = run_id env"
  proof (intro ballI)
    fix i e assume i: "i \<in> set invs" and e: "e \<in> set (inv_seen i)"
    from ok i have "fresh_in env ?stems (inv_seen i)" "inv_arch i \<in> set (c_archs env)"
      "basename (inv_file i) \<in> ?stems" by auto
    from fresh_in_matching [OF this] e
    show "e_arch e = inv_arch i \<and> startswith (e_name e) (basename (inv_file i) @ ''-'')
            \<longrightarrow> e_run e = run_id env" by blast
  qed
  have tasks: "map (\<lambda>i. (inv_file i, inv_arch i)) invs
               = concat (map (\<lambda>f. map (\<lambda>a. (compile_path f, a)) (c_archs env)) files)"
    using compile_files_tasks [of files files env od0] r by simp
  from mb seen tasks show ?thesis by blast
qed

text \<open>
  The sibling path. \<open>Tweak.compile\<close> removes the whole directory of every architecture with
  \<open>shutil.rmtree\<close> on a path that holds no pattern, so for every file name the compiler
  finds nothing of an earlier run; and for every file it is started at least for the first
  architecture.
\<close>

lemma Tweak_compile_sees_no_stale:
  assumes "i \<in> set (fst (Tweak_compile env files od))" and "e \<in> set (inv_seen i)"
    and "e_arch e = inv_arch i" and "startswith (e_name e) (basename (inv_file i) @ ''-'')"
  shows "e_run e = run_id env"
proof -
  from Tweak_compile_fresh [OF assms(1)]
  have "fresh_in env (basename ` set (map compile_path files)) (inv_seen i)"
    and "inv_arch i \<in> set (c_archs env)"
    and "basename (inv_file i) \<in> basename ` set (map compile_path files)" by simp_all
  from fresh_in_matching [OF this] assms(2-4) show ?thesis by blast
qed

lemma compile_tweak_archs_starts:
  "\<exists>i \<in> set (fst (compile_tweak_archs env f (a # as) od)). inv_file i = f \<and> inv_arch i = a"
proof -
  let ?od1 = "rmtree a (basename f @ ''-*'') od"
  obtain od2 raised where rc: "run_compiler env f a (tweak_outputs env f) ?od1 = (od2, raised)"
    by (cases "run_compiler env f a (tweak_outputs env f) ?od1")
  obtain invs od3 r where rest: "compile_tweak_archs env f as od2 = (invs, od3, r)"
    by (cases "compile_tweak_archs env f as od2")
  from rc rest show ?thesis by (cases raised) (simp_all add: Let_def)
qed

lemma compile_tweak_file_starts:
  assumes "sf \<in> set files" and "c_archs env = a # as"
  shows "\<exists>i \<in> set (fst (compile_tweak_file env (map compile_path files) sf od)).
           inv_file i = compile_path sf \<and> inv_arch i = a"
proof -
  obtain invs od1 raised where
    c: "compile_tweak_archs env (compile_path sf) (a # as) od = (invs, od1, raised)"
    by (cases "compile_tweak_archs env (compile_path sf) (a # as) od")
  from compile_tweak_archs_starts [of env "compile_path sf" a as od] c
  have "\<exists>i \<in> set invs. inv_file i = compile_path sf \<and> inv_arch i = a" by simp
  moreover have "fst (compile_tweak_file env (map compile_path files) sf od) = invs"
    using c assms(2) by (simp add: compile_tweak_file_def find_compile_path [OF assms(1)])
  ultimately show ?thesis by simp
qed

lemma compile_tweak_files_starts:
  "set sfs \<subseteq> set files \<Longrightarrow> c_archs env = a # as \<Longrightarrow> sf \<in> set sfs \<Longrightarrow>
     \<exists>i \<in> set (fst (compile_tweak_files env (map compile_path files) sfs od)).
       inv_file i = compile_path sf \<and> inv_arch i = a"
proof (induction sfs arbitrary: od)
  case Nil
  then show ?case by simp
next
  case (Cons x xs)
  obtain invs1 od1 r where a1: "compile_tweak_file env (map compile_path files) x od = (invs1, od1, r)"
    by (cases "compile_tweak_file env (map compile_path files) x od")
  obtain invs2 od2 rs where b1: "compile_tweak_files env (map compile_path files) xs od1 = (invs2, od2, rs)"
    by (cases "compile_tweak_files env (map compile_path files) xs od1")
  have whole: "fst (compile_tweak_files env (map compile_path files) (x # xs) od) = invs1 @ invs2"
    using a1 b1 by (simp add: Let_def)
  show ?case
  proof (cases "sf = x")
    case True
    from Cons.prems(1) have "x \<in> set files" by simp
    from compile_tweak_file_starts [OF this Cons.prems(2), of od] a1 True
    have "\<exists>i \<in> set invs1. inv_file i = compile_path sf \<and> inv_arch i = a" by simp
    with whole show ?thesis by auto
  next
    case False
    with Cons.prems have "sf \<in> set xs" "set xs \<subseteq> set files" by simp_all
    from Cons.IH [OF this(2) Cons.prems(2) this(1), of od1] b1
    have "\<exists>i \<in> set invs2. inv_file i = compile_path sf \<and> inv_arch i = a" by simp
    with whole show ?thesis by auto
  qed
qed

lemma Tweak_compile_starts:
  "c_archs env = a # as \<Longrightarrow> sf \<in> set files \<Longrightarrow>
     \<exists>i \<in> set (fst (Tweak_compile env files od)).
       inv_file i = compile_path sf \<and> inv_arch i = a"
  using compile_tweak_files_starts [of files files env a as sf]
  by (simp add: Tweak_compile_def Let_def)


end
